theory Spec2Isabelle
  imports Complex_Main "HOL-Library.Sublist"
begin

section \<open>Strings\<close>

text \<open>
  JavaScript strings are modelled as \<^typ>\<open>string\<close>, one \<^typ>\<open>char\<close> per code unit, of
  which the model has those from 0 to 255; the texts of the optimizer are ASCII, and
  on them \<open>length\<close> is the source's \<open>.length\<close>, \<open>take n\<close> is \<open>.slice(0, n)\<close>.
\<close>

abbreviation NL :: string where
  "NL \<equiv> [CHR 0x0A]"

text \<open>\<open>p.includes(s)\<close>: the text \<open>s\<close> occurs in \<open>p\<close> as a contiguous piece.\<close>

fun includes_str :: "string \<Rightarrow> string \<Rightarrow> bool" where
  "includes_str [] s = (s = [])"
| "includes_str (c # cs) s = (prefix s (c # cs) \<or> includes_str cs s)"

text \<open>\<open>p.toLowerCase()\<close> on ASCII text: the letters A to Z are mapped to a to z.\<close>

definition lower_char :: "char \<Rightarrow> char" where
  "lower_char c =
     (case map_of (zip ''ABCDEFGHIJKLMNOPQRSTUVWXYZ'' ''abcdefghijklmnopqrstuvwxyz'') c of
        None \<Rightarrow> c
      | Some l \<Rightarrow> l)"

definition toLowerCase :: "string \<Rightarrow> string" where
  "toLowerCase p = map lower_char p"

text \<open>\<open>s.trim()\<close>: the white space and line terminators among the characters of the
  model (tab, line feed, vertical tab, form feed, carriage return, space and the
  no-break space U+00A0) are removed at both ends.\<close>

definition is_space :: "char \<Rightarrow> bool" where
  "is_space c =
     (let n = (of_char c :: nat) in n = 32 \<or> (9 \<le> n \<and> n \<le> 13) \<or> n = 160)"

definition trim :: "string \<Rightarrow> string" where
  "trim s = rev (dropWhile is_space (rev (dropWhile is_space s)))"

text \<open>\<open>xs.slice(-n)\<close> for a count \<open>n\<close>: the last \<open>n\<close> elements, all of them when the list
  is shorter; \<open>slice(-0)\<close> is \<open>slice(0)\<close>, the whole list.\<close>

definition slice_last :: "nat \<Rightarrow> 'a list \<Rightarrow> 'a list" where
  "slice_last n xs = (if n = 0 then xs else drop (length xs - n) xs)"

text \<open>\<open>p.match(/\d\./)\<close>: some decimal digit is directly followed by a full stop.\<close>

definition is_digit :: "char \<Rightarrow> bool" where
  "is_digit c = (let n = (of_char c :: nat) in 48 \<le> n \<and> n \<le> 57)"

fun match_digit_dot :: "string \<Rightarrow> bool" where
  "match_digit_dot (c # d # cs) = ((is_digit c \<and> d = CHR ''.'') \<or> match_digit_dot (d # cs))"
| "match_digit_dot _ = False"

section \<open>Numbers\<close>

text \<open>
  A finite JavaScript number is modelled as a \<^typ>\<open>real\<close>. Where the source can produce
  a number that is not finite, the type \<open>number\<close> adds NaN and the two infinities, with
  the IEEE rules for them; the sign of a zero is not kept. The operations below give the
  exact result on finite operands. In the optimizer, whose scores are sums of five
  products of small numbers, the rounding of a result to the nearest double is left
  out; in \<open>cosineSimilarity\<close> every result is brought into the range of doubles and
  rounded (\<open>rounded\<close> below).
\<close>

datatype number = Finite real | NaN | PosInfinity | NegInfinity

definition signed_infinity :: "bool \<Rightarrow> number" where
  "signed_infinity positive = (if positive then PosInfinity else NegInfinity)"

fun negate_js :: "number \<Rightarrow> number" where
  "negate_js (Finite x) = Finite (- x)"
| "negate_js NaN = NaN"
| "negate_js PosInfinity = NegInfinity"
| "negate_js NegInfinity = PosInfinity"

fun add_js :: "number \<Rightarrow> number \<Rightarrow> number" where
  "add_js (Finite x) (Finite y) = Finite (x + y)"
| "add_js NaN _ = NaN"
| "add_js _ NaN = NaN"
| "add_js PosInfinity NegInfinity = NaN"
| "add_js NegInfinity PosInfinity = NaN"
| "add_js PosInfinity _ = PosInfinity"
| "add_js _ PosInfinity = PosInfinity"
| "add_js NegInfinity _ = NegInfinity"
| "add_js _ NegInfinity = NegInfinity"

fun mul_js :: "number \<Rightarrow> number \<Rightarrow> number" where
  "mul_js (Finite x) (Finite y) = Finite (x * y)"
| "mul_js NaN _ = NaN"
| "mul_js _ NaN = NaN"
| "mul_js PosInfinity (Finite y) = (if y = 0 then NaN else signed_infinity (0 < y))"
| "mul_js NegInfinity (Finite y) = (if y = 0 then NaN else signed_infinity (y < 0))"
| "mul_js (Finite x) PosInfinity = (if x = 0 then NaN else signed_infinity (0 < x))"
| "mul_js (Finite x) NegInfinity = (if x = 0 then NaN else signed_infinity (x < 0))"
| "mul_js PosInfinity PosInfinity = PosInfinity"
| "mul_js NegInfinity NegInfinity = PosInfinity"
| "mul_js PosInfinity NegInfinity = NegInfinity"
| "mul_js NegInfinity PosInfinity = NegInfinity"

fun div_js :: "number \<Rightarrow> number \<Rightarrow> number" where
  "div_js (Finite x) (Finite y) =
     (if y \<noteq> 0 then Finite (x / y)
      else if x = 0 then NaN
      else signed_infinity (0 < x))"
| "div_js NaN _ = NaN"
| "div_js _ NaN = NaN"
| "div_js (Finite x) _ = Finite 0"
| "div_js PosInfinity (Finite y) = signed_infinity (0 \<le> y)"
| "div_js NegInfinity (Finite y) = signed_infinity (y < 0)"
| "div_js _ _ = NaN"

fun sqrt_js :: "number \<Rightarrow> number" where
  "sqrt_js (Finite x) = (if 0 \<le> x then Finite (sqrt x) else NaN)"
| "sqrt_js PosInfinity = PosInfinity"
| "sqrt_js _ = NaN"

text \<open>
  The range of doubles: a result at or beyond \<open>2^1024 - 2^970\<close> in magnitude is rounded
  to an infinity, one at or below \<open>2^-1075\<close> to zero. \<open>in_range\<close> applies this to an
  exact value that may leave the range.
\<close>

definition double :: "real \<Rightarrow> number" where
  "double x =
     (if 2 ^ 1024 - 2 ^ 970 \<le> \<bar>x\<bar> then signed_infinity (0 < x)
      else if \<bar>x\<bar> \<le> 1 / 2 ^ 1075 then Finite 0
      else Finite x)"

fun in_range :: "number \<Rightarrow> number" where
  "in_range (Finite x) = double x"
| "in_range n = n"

text \<open>
  Rounding. The double that an exact value within the range is rounded to is a
  parameter \<open>rnd\<close> of the model, and \<open>rounded rnd\<close> is the result of an operation as a
  double: out of the range an infinity or zero, within it the rounded value. Of the
  rounding function the statements below assume no more than \<open>nearest\<close>: it is
  symmetric, and between the smallest normal number \<open>2^-1022\<close> and \<open>2^1024\<close> its
  relative error is at most \<open>2^-53\<close>, as for the rounding to the nearest double of
  IEEE 754. Nothing is assumed of the rounding of a subnormal value other than zero.
\<close>

definition nearest :: "(real \<Rightarrow> real) \<Rightarrow> bool" where
  "nearest rnd \<longleftrightarrow>
     (\<forall>x. 1 / 2 ^ 1022 \<le> \<bar>x\<bar> \<and> \<bar>x\<bar> < 2 ^ 1024 \<longrightarrow> \<bar>rnd x - x\<bar> \<le> \<bar>x\<bar> / 2 ^ 53)
     \<and> (\<forall>x. rnd (- x) = - rnd x)"

definition rounded :: "(real \<Rightarrow> real) \<Rightarrow> number \<Rightarrow> number" where
  "rounded rnd n = (case in_range n of Finite x \<Rightarrow> Finite (rnd x) | m \<Rightarrow> m)"

text \<open>
  \<open>StringToNumber\<close>, the number that a string is coerced to: white space is trimmed,
  the empty text is 0, then a binary, octal or hexadecimal integer (\<open>0b\<close>, \<open>0o\<close>, \<open>0x\<close>,
  unsigned), or an optionally signed \<open>Infinity\<close> or decimal literal with optional
  fraction and exponent, brought into the range of doubles. Any other text is NaN.
\<close>

definition digit_value :: "char \<Rightarrow> nat option" where
  "digit_value c =
     map_of (zip ''0123456789abcdefABCDEF''
               [0, 1, 2, 3, 4, 5, 6, 7, 8, 9, 10, 11, 12, 13, 14, 15, 10, 11, 12, 13, 14, 15]) c"

fun digits_value :: "nat \<Rightarrow> string \<Rightarrow> nat \<Rightarrow> nat option" where
  "digits_value base [] acc = Some acc"
| "digits_value base (c # cs) acc =
     (case digit_value c of
        None \<Rightarrow> None
      | Some d \<Rightarrow> if d < base then digits_value base cs (acc * base + d) else None)"

text \<open>A non-empty run of digits of the base, as a natural number.\<close>

definition natural :: "nat \<Rightarrow> string \<Rightarrow> nat option" where
  "natural base s = (if s = [] then None else digits_value base s 0)"

definition is_decimal_digit :: "char \<Rightarrow> bool" where
  "is_decimal_digit c = (case digit_value c of None \<Rightarrow> False | Some d \<Rightarrow> d < 10)"

text \<open>The value of a run of decimal digits, zero for the empty run.\<close>

definition decimal_value :: "string \<Rightarrow> nat" where
  "decimal_value s = (case digits_value 10 s 0 of None \<Rightarrow> 0 | Some n \<Rightarrow> n)"

text \<open>The exponent part: nothing, or \<open>e\<close> or \<open>E\<close> with an optionally signed integer.\<close>

definition exponent_part :: "string \<Rightarrow> int option" where
  "exponent_part s =
     (case s of
        [] \<Rightarrow> Some 0
      | c # t \<Rightarrow>
          if c = CHR ''e'' \<or> c = CHR ''E'' then
            (case t of
               [] \<Rightarrow> None
             | d # u \<Rightarrow>
                 if d = CHR ''+'' then map_option int (natural 10 u)
                 else if d = CHR ''-'' then map_option (\<lambda>n. - int n) (natural 10 u)
                 else map_option int (natural 10 t))
          else None)"

definition unsigned_decimal :: "string \<Rightarrow> number option" where
  "unsigned_decimal s =
     (if s = ''Infinity'' then Some PosInfinity
      else
        let whole = takeWhile is_decimal_digit s;
            rest = dropWhile is_decimal_digit s;
            dotted = (case rest of [] \<Rightarrow> False | c # t \<Rightarrow> c = CHR ''.'');
            fraction = (if dotted then takeWhile is_decimal_digit (tl rest) else []);
            tail = (if dotted then dropWhile is_decimal_digit (tl rest) else rest)
        in if whole = [] \<and> fraction = [] then None
           else
             (case exponent_part tail of
                None \<Rightarrow> None
              | Some e \<Rightarrow>
                  let mantissa = real (decimal_value whole)
                        + real (decimal_value fraction) / 10 ^ length fraction
                  in Some (in_range (Finite (if 0 \<le> e then mantissa * 10 ^ nat e
                                             else mantissa / 10 ^ nat (- e))))))"

definition StringToNumber :: "string \<Rightarrow> number" where
  "StringToNumber s =
     (let t = trim s in
      case t of
        [] \<Rightarrow> Finite 0
      | c # u \<Rightarrow>
          if c = CHR ''0'' \<and> u \<noteq> [] \<and> hd u \<in> set ''bBoOxX'' then
            (let base = (if hd u \<in> set ''bB'' then 2 else if hd u \<in> set ''oO'' then 8 else 16)
             in case natural base (tl u) of
                  None \<Rightarrow> NaN
                | Some n \<Rightarrow> in_range (Finite (real n)))
          else if c = CHR ''+'' then
            (case unsigned_decimal u of None \<Rightarrow> NaN | Some n \<Rightarrow> n)
          else if c = CHR ''-'' then
            (case unsigned_decimal u of None \<Rightarrow> NaN | Some n \<Rightarrow> negate_js n)
          else
            (case unsigned_decimal t of None \<Rightarrow> NaN | Some n \<Rightarrow> n))"

section \<open>The pattern library\<close>

text \<open>
  \<open>IMPROVEMENT_PATTERNS\<close> of \<open>optimizer.ts\<close>: five rules in declaration order, each with a
  name, a predicate \<open>check\<close>, a rewriting \<open>apply\<close> (here \<open>apply_fn\<close>) that appends a fixed
  text, and an expected improvement.
\<close>

record pattern =
  name :: string
  check :: "string \<Rightarrow> bool"
  apply_fn :: "string \<Rightarrow> string"
  expectedImprovement :: real

definition structure_text :: string where
  "structure_text =
     NL @ NL @ ''Provide your response in a structured format with clear sections.''"

definition chain_of_thought_text :: string where
  "chain_of_thought_text =
     NL @ NL @ ''Think through this step by step, showing your reasoning.''"

definition constraints_text :: string where
  "constraints_text =
     NL @ NL @ ''Requirements:'' @ NL @ ''- Be specific and precise'' @ NL
       @ ''- Support claims with evidence'' @ NL @ ''- Stay focused on the core question''"

definition output_format_text :: string where
  "output_format_text =
     NL @ NL @ ''Format your response clearly with headers where appropriate.''"

definition context_request_text :: string where
  "context_request_text =
     NL @ NL @ ''Consider relevant context and background information.''"

definition add_structure :: pattern where
  "add_structure = \<lparr>
     name = ''add_structure'',
     check = (\<lambda>p. \<not> includes_str p ''1.'' \<and> \<not> includes_str p ''step'' \<and> \<not> includes_str p ''first''),
     apply_fn = (\<lambda>p. p @ structure_text),
     expectedImprovement = 15 / 100 \<rparr>"

definition add_chain_of_thought :: pattern where
  "add_chain_of_thought = \<lparr>
     name = ''add_chain_of_thought'',
     check = (\<lambda>p. \<not> includes_str (toLowerCase p) ''step by step''
                  \<and> \<not> includes_str (toLowerCase p) ''think through''),
     apply_fn = (\<lambda>p. p @ chain_of_thought_text),
     expectedImprovement = 20 / 100 \<rparr>"

definition add_constraints :: pattern where
  "add_constraints = \<lparr>
     name = ''add_constraints'',
     check = (\<lambda>p. length p < 150 \<and> \<not> includes_str p ''Requirements''),
     apply_fn = (\<lambda>p. p @ constraints_text),
     expectedImprovement = 10 / 100 \<rparr>"

definition add_output_format :: pattern where
  "add_output_format = \<lparr>
     name = ''add_output_format'',
     check = (\<lambda>p. \<not> includes_str (toLowerCase p) ''format''
                  \<and> \<not> includes_str (toLowerCase p) ''respond with''),
     apply_fn = (\<lambda>p. p @ output_format_text),
     expectedImprovement = 8 / 100 \<rparr>"

definition add_context_request :: pattern where
  "add_context_request = \<lparr>
     name = ''add_context_request'',
     check = (\<lambda>p. \<not> includes_str (toLowerCase p) ''context''
                  \<and> \<not> includes_str (toLowerCase p) ''background''),
     apply_fn = (\<lambda>p. p @ context_request_text),
     expectedImprovement = 5 / 100 \<rparr>"

definition IMPROVEMENT_PATTERNS :: "pattern list" where
  "IMPROVEMENT_PATTERNS =
     [add_structure, add_chain_of_thought, add_constraints, add_output_format,
      add_context_request]"

text \<open>
  \<open>applyPatterns\<close>: the loop over the patterns, each tested against the text as rewritten
  so far; the pair returned is \<open>(improved, applied)\<close>.
\<close>

definition apply_pattern :: "pattern \<Rightarrow> string \<times> string list \<Rightarrow> string \<times> string list" where
  "apply_pattern pat acc =
     (case acc of (improved, applied) \<Rightarrow>
        if check pat improved then (apply_fn pat improved, applied @ [name pat])
        else (improved, applied))"

definition applyPatterns :: "string \<Rightarrow> string \<times> string list" where
  "applyPatterns prompt = fold apply_pattern IMPROVEMENT_PATTERNS (prompt, [])"

section \<open>Errors, JSON values and the language model\<close>

text \<open>
  What the source throws: a rejected call of the language model (\<open>TransportError\<close>), a
  \<open>TypeError\<close> of the JavaScript runtime, and the error of \<open>cosineSimilarity\<close>.
  \<open>Unmodelled\<close> is no exception of the source: it marks the one place where the model
  stops, a run of \<open>optimize\<close> in which a score is NaN or infinite (the scores that
  \<open>optimize\<close> compares and subtracts are finite here).
\<close>

datatype error = TransportError | TypeError | DimensionMismatch | Unmodelled

text \<open>
  The values \<open>JSON.parse\<close> returns; an object is the list of its own properties. A
  number literal is read as a finite number (a literal beyond the range of doubles,
  which \<open>JSON.parse\<close> reads as an infinity, is left out).
\<close>

datatype json =
    JNull
  | JBool bool
  | JNum real
  | JStr string
  | JArr "json list"
  | JObj "(string \<times> json) list"

text \<open>
  \<open>openai.chat.completions.create\<close>: the awaited call is rejected, or it resolves to a
  response of which the source reads \<open>choices[0]?.message?.content\<close> only, a text or
  nothing (\<open>null\<close>, \<open>undefined\<close>, no choice at all).
\<close>

datatype response = Rejected | Completion "string option"

text \<open>
  The three requests the optimizer sends, with the values interpolated into their
  message templates: the judge's (domain, prompt), the retrieval learner's (prompt, top
  prompts) and the candidate generator's (domain, history lines, current prompt). A
  history line \<open>Prompt (score: s.toFixed(2)): preview...\<close> is kept as the pair of the
  score and the preview.
\<close>

datatype request =
    JudgeRequest string string
  | LearnRequest string "string list"
  | GenerateRequest string "(real \<times> string) list" string

text \<open>
  The environment of a run: the response of the language model to the \<open>k\<close>-th request
  sent through the client, and the built-in \<open>JSON.parse\<close> (\<open>None\<close> for a \<open>SyntaxError\<close>).
\<close>

record runtime =
  create :: "nat \<Rightarrow> request \<Rightarrow> response"
  JSON_parse :: "string \<Rightarrow> json option"

section \<open>The optimizer\<close>

record OptimizationConfig =
  maxIterations :: nat
  targetScore :: real
  convergenceThreshold :: real
  convergenceWindow :: nat

definition DEFAULT_CONFIG :: OptimizationConfig where
  "DEFAULT_CONFIG = \<lparr>
     maxIterations = 10,
     targetScore = 95 / 100,
     convergenceThreshold = 2 / 100,
     convergenceWindow = 3 \<rparr>"

text \<open>\<open>EVALUATION_CRITERIA\<close>: the criteria in declaration order, each with its weight.\<close>

definition EVALUATION_CRITERIA :: "(string \<times> real) list" where
  "EVALUATION_CRITERIA =
     [(''clarity'', 25 / 100), (''specificity'', 25 / 100), (''completeness'', 20 / 100),
      (''structure'', 15 / 100), (''effectiveness'', 15 / 100)]"

text \<open>\<open>lastEvaluation\<close>: the parsed judgement, its \<open>reasoning\<close> property (\<open>None\<close> when the
  judgement has none) and the weighted score.\<close>

record Evaluation =
  scores :: json
  reasoning :: "json option"
  weightedScore :: number

text \<open>
  The fields of a \<open>PromptOptimizer\<close>: \<open>config\<close>, \<open>history\<close> (pairs of prompt and score)
  and \<open>lastEvaluation\<close>; \<open>sent\<close> is the log of the requests its client has sent.
\<close>

record optimizer =
  config :: OptimizationConfig
  history :: "(string \<times> real) list"
  lastEvaluation :: "Evaluation option"
  sent :: "request list"

text \<open>The constructor: the defaults, overridden by the given configuration.\<close>

definition new_optimizer :: "OptimizationConfig option \<Rightarrow> optimizer" where
  "new_optimizer cfg = \<lparr>
     config = (case cfg of None \<Rightarrow> DEFAULT_CONFIG | Some c \<Rightarrow> c),
     history = [],
     lastEvaluation = None,
     sent = [] \<rparr>"

text \<open>The fields of a \<open>PromptRecord\<close> that the optimizer reads.\<close>

record PromptMetrics =
  success_rate :: real

record PromptRecord =
  prompt_text :: string
  metrics :: PromptMetrics

text \<open>
  The lines pushed to \<open>improvements\<close>, each with the values its template interpolates:
  \<open>Original score: ...%\<close>, \<open>Applied pattern: name\<close>, \<open>RAG improvement: Learned from n
  high-performing prompts\<close>, \<open>Iteration i: +d% (now s%)\<close>, \<open>  Reason: ...\<close> (the sliced
  reasoning), \<open>Iteration i: No improvement (c% vs s%)\<close>, \<open>Converged - stopping
  optimization\<close>, \<open>Target score t% reached!\<close>.
\<close>

datatype improvement_line =
    OriginalScore real
  | AppliedPattern string
  | RAGImprovement nat
  | IterationImproved nat real real
  | Reason json
  | NoImprovement nat real real
  | Converged
  | TargetReached real

record OptimizePromptResult =
  original_prompt :: string
  optimized_prompt :: string
  improvements_made :: "improvement_line list"
  iterations_made :: nat
  estimated_improvement :: real
  similar_prompts_used :: nat

subsection \<open>Calls of the language model\<close>

text \<open>An awaited call: a rejection is thrown to the caller, a response is logged and
  its content returned.\<close>

definition call :: "runtime \<Rightarrow> request \<Rightarrow> optimizer \<Rightarrow> error + (string option \<times> optimizer)" where
  "call rt req self =
     (case create rt (length (sent self)) req of
        Rejected \<Rightarrow> Inl TransportError
      | Completion content \<Rightarrow> Inr (content, self\<lparr>sent := sent self @ [req]\<rparr>))"

text \<open>\<open>content || d\<close>: nothing and the empty text are falsy.\<close>

definition or_default :: "string option \<Rightarrow> string \<Rightarrow> string" where
  "or_default content d = (case content of None \<Rightarrow> d | Some s \<Rightarrow> if s = [] then d else s)"

text \<open>\<open>content?.trim() || d\<close>.\<close>

definition trim_or_default :: "string option \<Rightarrow> string \<Rightarrow> string" where
  "trim_or_default content d =
     (case content of None \<Rightarrow> d | Some s \<Rightarrow> if trim s = [] then d else trim s)"

subsection \<open>The evaluator\<close>

text \<open>\<open>quickHeuristicFallback\<close>.\<close>

definition quickHeuristicFallback :: "string \<Rightarrow> real" where
  "quickHeuristicFallback prompt =
     (let score0 = 5 / 10;
          score1 = (if 50 < length prompt \<and> length prompt < 500 then score0 + 1 / 10 else score0);
          score2 = (if includes_str prompt NL then score1 + 5 / 100 else score1);
          score3 = (if match_digit_dot prompt then score2 + 5 / 100 else score2);
          score4 = (if includes_str (toLowerCase prompt) ''step by step''
                    then score3 + 1 / 10 else score3)
      in min score4 1)"

text \<open>
  \<open>evaluation[k]\<close>: reading a property of \<open>null\<close> throws a \<open>TypeError\<close>; an object has the
  properties parsed into it; a number, a boolean, a string or an array has none of the
  names the optimizer reads (the criteria and \<open>reasoning\<close>).
\<close>

fun get_property :: "json \<Rightarrow> string \<Rightarrow> error + json option" where
  "get_property JNull k = Inl TypeError"
| "get_property (JObj props) k = Inr (map_of props k)"
| "get_property _ k = Inr None"

fun truthy :: "json \<Rightarrow> bool" where
  "truthy JNull = False"
| "truthy (JBool b) = b"
| "truthy (JNum r) = (r \<noteq> 0)"
| "truthy (JStr s) = (s \<noteq> [])"
| "truthy _ = True"

text \<open>\<open>v || 0\<close> for a property that may be missing.\<close>

definition or_zero :: "json option \<Rightarrow> json" where
  "or_zero v = (case v of None \<Rightarrow> JNum 0 | Some x \<Rightarrow> if truthy x then x else JNum 0)"

text \<open>
  The operand of \<open>score / 10\<close> as a number (\<open>ToNumber\<close>). A boolean is 1 or 0, \<open>null\<close> is
  0, a string is read by \<open>StringToNumber\<close>. An object or an array is first made a string:
  the \<open>toString\<close> of a parsed object is found among its own properties first, where it
  is no function, so such an object cannot be converted and the coercion throws a
  \<open>TypeError\<close>; any other object is \<open>[object Object]\<close>, not a number. An array is the
  texts of its elements joined by commas, \<open>null\<close> giving the empty text: with two or more
  elements the comma makes it NaN, with one element it is what that element's text
  reads as (the text of a number reads as the number), and the empty array is 0.
\<close>

fun unconvertible :: "json \<Rightarrow> bool" where
  "unconvertible (JObj props) = (map_of props ''toString'' \<noteq> None)"
| "unconvertible (JArr xs) = list_ex unconvertible xs"
| "unconvertible _ = False"

fun text_number :: "json \<Rightarrow> number" where
  "text_number JNull = Finite 0"
| "text_number (JBool b) = NaN"
| "text_number (JNum r) = Finite r"
| "text_number (JStr s) = StringToNumber s"
| "text_number (JObj props) = NaN"
| "text_number (JArr []) = Finite 0"
| "text_number (JArr [x]) = text_number x"
| "text_number (JArr (x # y # zs)) = NaN"

definition ToNumber :: "json \<Rightarrow> error + number" where
  "ToNumber v =
     (if unconvertible v then Inl TypeError
      else (case v of
              JBool b \<Rightarrow> Inr (Finite (if b then 1 else 0))
            | _ \<Rightarrow> Inr (text_number v)))"

text \<open>The loop over the criteria that accumulates \<open>weightedScore\<close>.\<close>

fun weigh :: "json \<Rightarrow> (string \<times> real) list \<Rightarrow> number \<Rightarrow> error + number" where
  "weigh evaluation [] acc = Inr acc"
| "weigh evaluation ((criterion, weight) # rest) acc =
     (case get_property evaluation criterion of
        Inl e \<Rightarrow> Inl e
      | Inr v \<Rightarrow>
          (case ToNumber (or_zero v) of
             Inl e \<Rightarrow> Inl e
           | Inr score \<Rightarrow>
               weigh evaluation rest
                 (add_js acc (mul_js (div_js score (Finite 10)) (Finite weight)))))"

text \<open>The body of the \<open>try\<close> block of \<open>scorePrompt\<close>, after \<open>JSON.parse\<close>.\<close>

definition judged :: "json \<Rightarrow> error + Evaluation" where
  "judged evaluation =
     (case weigh evaluation EVALUATION_CRITERIA (Finite 0) of
        Inl e \<Rightarrow> Inl e
      | Inr w \<Rightarrow>
          (case get_property evaluation ''reasoning'' of
             Inl e \<Rightarrow> Inl e
           | Inr r \<Rightarrow> Inr \<lparr>scores = evaluation, reasoning = r, weightedScore = w\<rparr>))"

text \<open>
  \<open>scorePrompt\<close>: the call of the judge is awaited outside the \<open>try\<close> block, so its
  rejection is thrown; a content that does not parse and an exception of the block are
  caught and answered by the heuristic, with \<open>lastEvaluation\<close> left as it is.
\<close>

definition scorePrompt ::
  "runtime \<Rightarrow> string \<Rightarrow> string \<Rightarrow> optimizer \<Rightarrow> error + (number \<times> optimizer)" where
  "scorePrompt rt prompt domain self =
     (case call rt (JudgeRequest domain prompt) self of
        Inl e \<Rightarrow> Inl e
      | Inr (content, self1) \<Rightarrow>
          (case JSON_parse rt (or_default content ''{}'') of
             None \<Rightarrow> Inr (Finite (quickHeuristicFallback prompt), self1)
           | Some evaluation \<Rightarrow>
               (case judged evaluation of
                  Inl e \<Rightarrow> Inr (Finite (quickHeuristicFallback prompt), self1)
                | Inr ev \<Rightarrow> Inr (weightedScore ev, self1\<lparr>lastEvaluation := Some ev\<rparr>))))"

definition getLastEvaluation :: "optimizer \<Rightarrow> Evaluation option" where
  "getLastEvaluation self = lastEvaluation self"

subsection \<open>The convergence detector\<close>

text \<open>
  \<open>checkConvergence\<close>. \<open>Math.max\<close> and \<open>Math.min\<close> of no argument are \<open>-Infinity\<close> and
  \<open>Infinity\<close>, whose difference is below every threshold: the case of an empty \<open>recent\<close>.
\<close>

definition checkConvergence :: "OptimizationConfig \<Rightarrow> real list \<Rightarrow> bool" where
  "checkConvergence cfg ss =
     (if length ss < convergenceWindow cfg then False
      else (case slice_last (convergenceWindow cfg) ss of
              [] \<Rightarrow> True
            | x # xs \<Rightarrow> fold max xs x - fold min xs x < convergenceThreshold cfg))"

subsection \<open>The retrieval learner and the candidate generator\<close>

text \<open>\<open>learnFromSimilar\<close>: the records sorted by success rate, highest first (the sort
  is stable); the result is \<open>improved\<close> and the number that \<open>insights\<close> reports.\<close>

definition learnFromSimilar ::
  "runtime \<Rightarrow> string \<Rightarrow> PromptRecord list \<Rightarrow> optimizer \<Rightarrow> error + ((string \<times> nat) \<times> optimizer)" where
  "learnFromSimilar rt prompt similarPrompts self =
     (let sorted = sort_key (\<lambda>p. - success_rate (metrics p)) similarPrompts;
          topPrompts = map prompt_text (take 3 sorted)
      in case call rt (LearnRequest prompt topPrompts) self of
           Inl e \<Rightarrow> Inl e
         | Inr (content, self1) \<Rightarrow>
             Inr ((trim_or_default content prompt, length topPrompts), self1))"

text \<open>The history lines of the meta-prompt: the last five entries of \<open>history\<close>, each
  with its score and the first hundred characters of its prompt.\<close>

definition historyText :: "(string \<times> real) list \<Rightarrow> (real \<times> string) list" where
  "historyText h = map (\<lambda>(prompt, score). (score, take 100 prompt)) (slice_last 5 h)"

definition generateCandidate ::
  "runtime \<Rightarrow> string \<Rightarrow> string \<Rightarrow> optimizer \<Rightarrow> error + (string \<times> optimizer)" where
  "generateCandidate rt currentPrompt domain self =
     (case call rt (GenerateRequest domain (historyText (history self)) currentPrompt) self of
        Inl e \<Rightarrow> Inl e
      | Inr (content, self1) \<Rightarrow> Inr (trim_or_default content currentPrompt, self1))"

subsection \<open>The optimization controller\<close>

text \<open>
  The local variables of \<open>optimize\<close> (\<open>scores\<close> is \<open>all_scores\<close> here, \<open>originalScore\<close> the
  score of the original prompt) together with the optimizer they run on.
\<close>

record run =
  improvements :: "improvement_line list"
  currentPrompt :: string
  iterations :: nat
  all_scores :: "real list"
  originalScore :: real
  currentScore :: real
  self :: optimizer

text \<open>
  The score that \<open>optimize\<close> goes on with: the result of \<open>scorePrompt\<close> when it is finite;
  the model does not follow a run with a score that is NaN or infinite.
\<close>

definition finite_score :: "error + (number \<times> optimizer) \<Rightarrow> error + (real \<times> optimizer)" where
  "finite_score res =
     (case res of
        Inl e \<Rightarrow> Inl e
      | Inr (score, self1) \<Rightarrow>
          (case score of Finite s \<Rightarrow> Inr (s, self1) | _ \<Rightarrow> Inl Unmodelled))"

text \<open>
  \<open>if (evaluation?.reasoning) improvements.push(`  Reason: ${evaluation.reasoning.slice(0,
  100)}...`)\<close>: a string and an array have \<open>slice\<close>; on a truthy number, boolean or object
  the call is a \<open>TypeError\<close>.
\<close>

definition reason_lines :: "Evaluation option \<Rightarrow> error + improvement_line list" where
  "reason_lines evaluation =
     (case evaluation of
        None \<Rightarrow> Inr []
      | Some ev \<Rightarrow>
          (case reasoning ev of
             None \<Rightarrow> Inr []
           | Some v \<Rightarrow>
               if truthy v then
                 (case v of
                    JStr s \<Rightarrow> Inr [Reason (JStr (take 100 s))]
                  | JArr xs \<Rightarrow> Inr [Reason (JArr (take 100 xs))]
                  | _ \<Rightarrow> Inl TypeError)
               else Inr []))"

text \<open>
  One pass through the body of the \<open>while\<close> loop; the flag returned says whether the
  pass ended in a \<open>break\<close>.
\<close>

definition iteration :: "runtime \<Rightarrow> string \<Rightarrow> run \<Rightarrow> error + (run \<times> bool)" where
  "iteration rt domain r =
     (let n = Suc (iterations r) in
      case generateCandidate rt (currentPrompt r) domain (self r) of
        Inl e \<Rightarrow> Inl e
      | Inr (candidate, self1) \<Rightarrow>
          (case finite_score (scorePrompt rt candidate domain self1) of
             Inl e \<Rightarrow> Inl e
           | Inr (candidateScore, self2) \<Rightarrow>
               let self3 = self2\<lparr>history := history self2 @ [(candidate, candidateScore)]\<rparr>;
                   r1 = r\<lparr>iterations := n,
                          all_scores := all_scores r @ [candidateScore],
                          self := self3\<rparr>
               in case (if candidateScore > currentScore r then
                          (case reason_lines (getLastEvaluation self3) of
                             Inl e \<Rightarrow> Inl e
                           | Inr reason \<Rightarrow>
                               Inr (r1\<lparr>currentPrompt := candidate,
                                       currentScore := candidateScore,
                                       improvements := improvements r
                                         @ [IterationImproved n (candidateScore - currentScore r)
                                              candidateScore]
                                         @ reason\<rparr>))
                        else
                          Inr (r1\<lparr>improvements := improvements r
                                  @ [NoImprovement n candidateScore (currentScore r)]\<rparr>))
                  of
                    Inl e \<Rightarrow> Inl e
                  | Inr r2 \<Rightarrow>
                      if checkConvergence (config self3) (all_scores r2) then
                        Inr (r2\<lparr>improvements := improvements r2 @ [Converged]\<rparr>, True)
                      else if currentScore r2 \<ge> targetScore (config self3) then
                        Inr (r2\<lparr>improvements := improvements r2
                                 @ [TargetReached (targetScore (config self3))]\<rparr>, True)
                      else Inr (r2, False)))"

text \<open>\<open>while (iterations < this.config.maxIterations) { ... }\<close>.\<close>

function optimize_loop :: "runtime \<Rightarrow> string \<Rightarrow> run \<Rightarrow> error + run" where
  "optimize_loop rt domain r =
     (if iterations r < maxIterations (config (self r)) then
        (case iteration rt domain r of
           Inl e \<Rightarrow> Inl e
         | Inr (r', stop) \<Rightarrow> if stop then Inr r' else optimize_loop rt domain r')
      else Inr r)"
  by pat_completeness auto
termination
  apply (relation "measure (\<lambda>(rt, domain, r). maxIterations (config (self r)) - iterations r)")
   apply simp
  apply (auto simp: iteration_def generateCandidate_def scorePrompt_def finite_score_def call_def
                    Let_def
              split: sum.splits prod.splits if_splits response.splits option.splits
                     number.splits)
  done

declare optimize_loop.simps [simp del]

text \<open>\<open>optimize\<close> up to the loop: the baseline score, the patterns, the retrieval learner
  when similar prompts are given, the score of the current prompt and the history.\<close>

definition optimize_init ::
  "runtime \<Rightarrow> string \<Rightarrow> PromptRecord list \<Rightarrow> string \<Rightarrow> optimizer \<Rightarrow> error + run" where
  "optimize_init rt originalPrompt similarPrompts domain self0 =
     (case finite_score (scorePrompt rt originalPrompt domain self0) of
        Inl e \<Rightarrow> Inl e
      | Inr (score0, self1) \<Rightarrow>
          (case applyPatterns originalPrompt of
             (patternImproved, applied) \<Rightarrow>
               let prompt1 = (if applied \<noteq> [] then patternImproved else originalPrompt);
                   lines1 = [OriginalScore score0]
                     @ (if applied \<noteq> [] then map AppliedPattern applied else [])
               in case (if similarPrompts \<noteq> [] then
                          (case learnFromSimilar rt prompt1 similarPrompts self1 of
                             Inl e \<Rightarrow> Inl e
                           | Inr ((ragImproved, insights), self2) \<Rightarrow>
                               if ragImproved \<noteq> prompt1
                               then Inr (ragImproved, lines1 @ [RAGImprovement insights], self2)
                               else Inr (prompt1, lines1, self2))
                        else Inr (prompt1, lines1, self1))
                  of
                    Inl e \<Rightarrow> Inl e
                  | Inr (prompt2, lines2, self2) \<Rightarrow>
                      (case finite_score (scorePrompt rt prompt2 domain self2) of
                         Inl e \<Rightarrow> Inl e
                       | Inr (score2, self3) \<Rightarrow>
                           Inr \<lparr>improvements = lines2,
                                currentPrompt = prompt2,
                                iterations = 0,
                                all_scores = [score2],
                                originalScore = score0,
                                currentScore = score2,
                                self = self3\<lparr>history := [(originalPrompt, score0)]\<rparr>\<rparr>)))"

text \<open>The run of \<open>optimize\<close> up to its \<open>return\<close>, and the result it returns (with the
  optimizer as the run leaves it).\<close>

definition optimize_run ::
  "runtime \<Rightarrow> string \<Rightarrow> PromptRecord list \<Rightarrow> string \<Rightarrow> optimizer \<Rightarrow> error + run" where
  "optimize_run rt originalPrompt similarPrompts domain self0 =
     (case optimize_init rt originalPrompt similarPrompts domain self0 of
        Inl e \<Rightarrow> Inl e
      | Inr r \<Rightarrow> optimize_loop rt domain r)"

definition optimize ::
  "runtime \<Rightarrow> string \<Rightarrow> PromptRecord list \<Rightarrow> string \<Rightarrow> optimizer
     \<Rightarrow> error + (OptimizePromptResult \<times> optimizer)" where
  "optimize rt originalPrompt similarPrompts domain self0 =
     (case optimize_run rt originalPrompt similarPrompts domain self0 of
        Inl e \<Rightarrow> Inl e
      | Inr r \<Rightarrow>
          (let finalScore = currentScore r
           in Inr (\<lparr>original_prompt = originalPrompt,
                     optimized_prompt = currentPrompt r,
                     improvements_made = improvements r,
                     iterations_made = iterations r,
                     estimated_improvement = finalScore - originalScore r,
                     similar_prompts_used = length similarPrompts\<rparr>,
                   self r)))"

section \<open>The embedding service: cosine similarity\<close>

text \<open>
  \<open>cosineSimilarity\<close> on arrays of finite numbers, with the rounding \<open>rnd\<close> of doubles.
  The components of an embedding are arbitrary doubles, so every product and sum of
  the loop, each square root, their product and the quotient is a double of its own: a
  square can overflow to \<open>Infinity\<close> or underflow to 0, and every result within the
  range is rounded. The \<open>for\<close> loop runs over the indices of two arrays of one length,
  with the accumulators \<open>dotProduct\<close>, \<open>normA\<close> and \<open>normB\<close>.
\<close>

fun cosine_loop ::
  "(real \<Rightarrow> real) \<Rightarrow> real list \<Rightarrow> real list \<Rightarrow> number \<times> number \<times> number
     \<Rightarrow> number \<times> number \<times> number" where
  "cosine_loop rnd (x # xs) (y # ys) (dotProduct, normA, normB) =
     cosine_loop rnd xs ys
       (rounded rnd (add_js dotProduct (rounded rnd (mul_js (Finite x) (Finite y)))),
        rounded rnd (add_js normA (rounded rnd (mul_js (Finite x) (Finite x)))),
        rounded rnd (add_js normB (rounded rnd (mul_js (Finite y) (Finite y)))))"
| "cosine_loop rnd _ _ acc = acc"

definition cosineSimilarity :: "(real \<Rightarrow> real) \<Rightarrow> real list \<Rightarrow> real list \<Rightarrow> error + number" where
  "cosineSimilarity rnd a b =
     (if length a \<noteq> length b then Inl DimensionMismatch
      else (case cosine_loop rnd a b (Finite 0, Finite 0, Finite 0) of
              (dotProduct, normA, normB) \<Rightarrow>
                Inr (rounded rnd
                       (div_js dotProduct
                          (rounded rnd
                             (mul_js (rounded rnd (sqrt_js normA))
                                (rounded rnd (sqrt_js normB))))))))"

text \<open>A result that is a finite number within \<open>10^-10\<close> of \<open>t\<close>.\<close>

definition approximately :: "error + number \<Rightarrow> real \<Rightarrow> bool" where
  "approximately res t =
     (case res of Inr (Finite r) \<Rightarrow> \<bar>r - t\<bar> \<le> 1 / 10 ^ 10 | _ \<Rightarrow> False)"

section \<open>Sample environments\<close>

text \<open>
  For the worked examples: a language model that answers the \<open>k\<close>-th request with the
  \<open>k\<close>-th of a list of responses (and rejects any further request), the judgement of the
  repository's unit test as \<open>JSON.stringify\<close> writes it, and \<open>JSON.parse\<close> on the texts
  that the examples send through it: \<open>{}\<close>, \<open>null\<close>, that judgement and the two
  judgements below parse, the empty text and \<open>not json\<close> do not. No other text is
  parsed in an example.
\<close>

definition scripted :: "response list \<Rightarrow> nat \<Rightarrow> request \<Rightarrow> response" where
  "scripted rs k req = (if k < length rs then rs ! k else Rejected)"

definition test_judgement :: string where
  \<open>test_judgement =
     ''{"clarity":8,"specificity":7,"completeness":6,"structure":8,"effectiveness":7,''
       @ ''"reasoning":"Good prompt with clear structure"}''\<close>

definition test_judgement_value :: json where
  "test_judgement_value =
     JObj [(''clarity'', JNum 8), (''specificity'', JNum 7), (''completeness'', JNum 6),
           (''structure'', JNum 8), (''effectiveness'', JNum 7),
           (''reasoning'', JStr ''Good prompt with clear structure'')]"

text \<open>A judgement with a string and a boolean for two criteria, and one whose
  \<open>clarity\<close> is an object with a property \<open>toString\<close>.\<close>

definition coerced_judgement :: string where
  \<open>coerced_judgement = ''{"clarity":"8","specificity":true}''\<close>

definition unconvertible_judgement :: string where
  \<open>unconvertible_judgement = ''{"clarity":{"toString":1}}''\<close>

definition JSON_parse_sample :: "string \<Rightarrow> json option" where
  "JSON_parse_sample s =
     (if s = ''{}'' then Some (JObj [])
      else if s = ''null'' then Some JNull
      else if s = test_judgement then Some test_judgement_value
      else if s = coerced_judgement
        then Some (JObj [(''clarity'', JStr ''8''), (''specificity'', JBool True)])
      else if s = unconvertible_judgement
        then Some (JObj [(''clarity'', JObj [(''toString'', JNum 1)])])
      else None)"

definition sample_runtime :: "response list \<Rightarrow> runtime" where
  "sample_runtime rs = \<lparr>create = scripted rs, JSON_parse = JSON_parse_sample\<rparr>"

text \<open>The \<open>k\<close>-th request that the client has sent when a run has ended.\<close>

definition nth_request :: "nat \<Rightarrow> error + run \<Rightarrow> request option" where
  "nth_request k res =
     (case res of
        Inl e \<Rightarrow> None
      | Inr r \<Rightarrow> if k < length (sent (self r)) then Some (sent (self r) ! k) else None)"

text \<open>
  The number with which a criterion enters the weighted sum: 0 when the judgement has
  no such property or a falsy one, otherwise what its value is coerced to. The weighted
  sum adds, in the order of the criteria, that number divided by 10 and multiplied by
  the weight.
\<close>

definition criterion_number :: "json \<Rightarrow> string \<Rightarrow> number" where
  "criterion_number evaluation criterion =
     (case get_property evaluation criterion of
        Inr (Some v) \<Rightarrow>
          if truthy v then (case ToNumber v of Inr n \<Rightarrow> n | Inl e \<Rightarrow> NaN) else Finite 0
      | _ \<Rightarrow> Finite 0)"

definition weighted_sum :: "json \<Rightarrow> number" where
  "weighted_sum evaluation =
     foldl add_js (Finite 0)
       (map (\<lambda>(criterion, weight).
               mul_js (div_js (criterion_number evaluation criterion) (Finite 10)) (Finite weight))
          EVALUATION_CRITERIA)"

text \<open>The optimizer of the unit test after its judge returned \<open>test_judgement\<close> for the
  prompt \<open>Test prompt\<close>.\<close>

definition after_test_judgement :: optimizer where
  "after_test_judgement = \<lparr>
     config = DEFAULT_CONFIG,
     history = [],
     lastEvaluation = Some \<lparr>scores = test_judgement_value,
       reasoning = Some (JStr ''Good prompt with clear structure''),
       weightedScore = Finite (72 / 100)\<rparr>,
     sent = [JudgeRequest ''general'' ''Test prompt''] \<rparr>"

text \<open>The text that one pattern leaves: rewritten when its predicate holds.\<close>

definition rewrite :: "pattern \<Rightarrow> string \<Rightarrow> string" where
  "rewrite pat t = (if check pat t then apply_fn pat t else t)"

text \<open>A text on which none of the four later patterns fires.\<close>

definition settled :: "string \<Rightarrow> bool" where
  "settled t \<longleftrightarrow> \<not> check add_chain_of_thought t \<and> \<not> check add_constraints t
     \<and> \<not> check add_output_format t \<and> \<not> check add_context_request t"

text \<open>
  A run of six iterations with the default configuration, on the prompt \<open>Do stuff\<close>
  without similar prompts: the judge never answers in JSON, so every score is the
  heuristic one, and the generator proposes the candidates \<open>a\<close>, \<open>a\<close>, \<open>a\<close> line feed
  \<open>b\<close>, \<open>a\<close>, \<open>a\<close>, \<open>a\<close>. \<open>run6\<close> is the state in which that run ends.
\<close>

definition rt6 :: runtime where
  "rt6 = sample_runtime
     [Completion (Some ''not json''), Completion (Some ''not json''),
      Completion (Some ''a''), Completion (Some ''not json''),
      Completion (Some ''a''), Completion (Some ''not json''),
      Completion (Some (''a'' @ NL @ ''b'')), Completion (Some ''not json''),
      Completion (Some ''a''), Completion (Some ''not json''),
      Completion (Some ''a''), Completion (Some ''not json''),
      Completion (Some ''a''), Completion (Some ''not json'')]"

definition improved_do_stuff :: string where
  "improved_do_stuff =
     ''Do stuff'' @ structure_text @ chain_of_thought_text @ constraints_text
       @ context_request_text"

definition run6 :: run where
  "run6 = \<lparr>
     improvements =
       [OriginalScore (1 / 2), AppliedPattern ''add_structure'',
        AppliedPattern ''add_chain_of_thought'', AppliedPattern ''add_constraints'',
        AppliedPattern ''add_context_request'',
        NoImprovement 1 (1 / 2) (3 / 4), NoImprovement 2 (1 / 2) (3 / 4),
        NoImprovement 3 (11 / 20) (3 / 4), NoImprovement 4 (1 / 2) (3 / 4),
        NoImprovement 5 (1 / 2) (3 / 4), NoImprovement 6 (1 / 2) (3 / 4), Converged],
     currentPrompt = improved_do_stuff,
     iterations = 6,
     all_scores = [3 / 4, 1 / 2, 1 / 2, 11 / 20, 1 / 2, 1 / 2, 1 / 2],
     originalScore = 1 / 2,
     currentScore = 3 / 4,
     self = \<lparr>
       config = DEFAULT_CONFIG,
       history =
         [(''Do stuff'', 1 / 2), (''a'', 1 / 2), (''a'', 1 / 2), (''a'' @ NL @ ''b'', 11 / 20),
          (''a'', 1 / 2), (''a'', 1 / 2), (''a'', 1 / 2)],
       lastEvaluation = None,
       sent =
         [JudgeRequest ''general'' ''Do stuff'',
          JudgeRequest ''general'' improved_do_stuff,
          GenerateRequest ''general'' [(1 / 2, ''Do stuff'')] improved_do_stuff,
          JudgeRequest ''general'' ''a'',
          GenerateRequest ''general'' [(1 / 2, ''Do stuff''), (1 / 2, ''a'')] improved_do_stuff,
          JudgeRequest ''general'' ''a'',
          GenerateRequest ''general'' [(1 / 2, ''Do stuff''), (1 / 2, ''a''), (1 / 2, ''a'')]
            improved_do_stuff,
          JudgeRequest ''general'' (''a'' @ NL @ ''b''),
          GenerateRequest ''general''
            [(1 / 2, ''Do stuff''), (1 / 2, ''a''), (1 / 2, ''a''), (11 / 20, ''a'' @ NL @ ''b'')]
            improved_do_stuff,
          JudgeRequest ''general'' ''a'',
          GenerateRequest ''general''
            [(1 / 2, ''Do stuff''), (1 / 2, ''a''), (1 / 2, ''a''), (11 / 20, ''a'' @ NL @ ''b''),
             (1 / 2, ''a'')]
            improved_do_stuff,
          JudgeRequest ''general'' ''a'',
          GenerateRequest ''general''
            [(1 / 2, ''a''), (1 / 2, ''a''), (11 / 20, ''a'' @ NL @ ''b''), (1 / 2, ''a''),
             (1 / 2, ''a'')]
            improved_do_stuff,
          JudgeRequest ''general'' ''a''] \<rparr> \<rparr>"

text \<open>
  A run with the default configuration in which the judge answers in JSON for the
  original prompt only: the baseline is the judged 0.72, every later score is the
  heuristic one, and the generator proposes the same numbered rewriting three times.
  \<open>improvements_logged\<close> reads \<open>improvements_made\<close> off the result of a run.
\<close>

definition stepwise_prompt :: string where
  "stepwise_prompt = ''Think step by step. Requirements: format, context.''"

definition numbered_candidate :: string where
  "numbered_candidate =
     ''1. Think step by step.'' @ NL @ ''2. Give requirements, format and context.''"

definition rt_judged_once :: runtime where
  "rt_judged_once = sample_runtime
     [Completion (Some test_judgement), Completion (Some ''not json''),
      Completion (Some numbered_candidate), Completion (Some ''not json''),
      Completion (Some numbered_candidate), Completion (Some ''not json''),
      Completion (Some numbered_candidate), Completion (Some ''not json'')]"

definition improvements_logged ::
  "error + (OptimizePromptResult \<times> optimizer) \<Rightarrow> improvement_line list option" where
  "improvements_logged res =
     (case res of Inl e \<Rightarrow> None | Inr (result, self1) \<Rightarrow> Some (improvements_made result))"

text \<open>A run about to enter the loop with the prompt \<open>p\<close>, scored \<open>s\<close>.\<close>

definition sample_run :: "real \<Rightarrow> run" where
  "sample_run s = \<lparr>
     improvements = [],
     currentPrompt = ''p'',
     iterations = 0,
     all_scores = [s],
     originalScore = s,
     currentScore = s,
     self = (new_optimizer None)\<lparr>history := [(''p'', s)]\<rparr> \<rparr>"

section \<open>Convergence detection\<close>

lemma fold_max_Max: "fold max xs (x::real) = Max (set (x # xs))"
  by (rule Max.set_eq_fold [symmetric])

lemma fold_min_Min: "fold min xs (x::real) = Min (set (x # xs))"
  by (rule Min.set_eq_fold [symmetric])

text \<open>
  Claim C2. With a window of at least one score, \<open>checkConvergence\<close> is false on fewer
  scores than the window; on at least that many it is true exactly when the largest
  minus the smallest of the last \<open>convergenceWindow\<close> scores is strictly below
  \<open>convergenceThreshold\<close>. With the defaults (window 3, threshold 0.02) it is true on
  \<open>[0.5, 0.6, 0.75, 0.76, 0.76, 0.77]\<close> and false on \<open>[0.5, 0.6, 0.7, 0.8, 0.9]\<close>.
\<close>

theorem checkConvergence_window:
  assumes "0 < convergenceWindow cfg"
  shows "(length ss < convergenceWindow cfg \<longrightarrow> \<not> checkConvergence cfg ss)
       \<and> (convergenceWindow cfg \<le> length ss \<longrightarrow>
            (checkConvergence cfg ss \<longleftrightarrow>
               Max (set (drop (length ss - convergenceWindow cfg) ss))
                 - Min (set (drop (length ss - convergenceWindow cfg) ss))
               < convergenceThreshold cfg))
       \<and> checkConvergence DEFAULT_CONFIG
            [50 / 100, 60 / 100, 75 / 100, 76 / 100, 76 / 100, 77 / 100]
       \<and> \<not> checkConvergence DEFAULT_CONFIG [50 / 100, 60 / 100, 70 / 100, 80 / 100, 90 / 100]"
proof (intro conjI impI)
  assume "length ss < convergenceWindow cfg"
  then show "\<not> checkConvergence cfg ss" by (simp add: checkConvergence_def)
next
  assume len: "convergenceWindow cfg \<le> length ss"
  define recent where "recent = drop (length ss - convergenceWindow cfg) ss"
  have sl: "slice_last (convergenceWindow cfg) ss = recent"
    using assms by (simp add: slice_last_def recent_def)
  have "length recent = convergenceWindow cfg"
    using len by (simp add: recent_def)
  with assms obtain x xs where rec: "recent = x # xs"
    by (cases recent) auto
  have "checkConvergence cfg ss \<longleftrightarrow> fold max xs x - fold min xs x < convergenceThreshold cfg"
    using len by (simp add: checkConvergence_def sl rec)
  also have "\<dots> \<longleftrightarrow> Max (set recent) - Min (set recent) < convergenceThreshold cfg"
    by (simp only: fold_max_Max fold_min_Min rec)
  finally show "checkConvergence cfg ss \<longleftrightarrow>
      Max (set (drop (length ss - convergenceWindow cfg) ss))
        - Min (set (drop (length ss - convergenceWindow cfg) ss)) < convergenceThreshold cfg"
    by (simp only: recent_def)
next
  show "checkConvergence DEFAULT_CONFIG
          [50 / 100, 60 / 100, 75 / 100, 76 / 100, 76 / 100, 77 / 100]"
    by (simp add: checkConvergence_def DEFAULT_CONFIG_def slice_last_def)
next
  show "\<not> checkConvergence DEFAULT_CONFIG [50 / 100, 60 / 100, 70 / 100, 80 / 100, 90 / 100]"
    by (simp add: checkConvergence_def DEFAULT_CONFIG_def slice_last_def)
qed

theorem checkConvergence_window_witness:
  "0 < convergenceWindow DEFAULT_CONFIG
   \<and> \<not> checkConvergence DEFAULT_CONFIG [50 / 100, 60 / 100]
   \<and> checkConvergence DEFAULT_CONFIG
       [50 / 100, 60 / 100, 70 / 100, 85 / 100, 85 / 100, 86 / 100]"
proof -
  have h: "0 < convergenceWindow DEFAULT_CONFIG" by (simp add: DEFAULT_CONFIG_def)
  have a: "\<not> checkConvergence DEFAULT_CONFIG [50 / 100, 60 / 100]"
    using checkConvergence_window [OF h, of "[50 / 100, 60 / 100]"]
    by (simp add: DEFAULT_CONFIG_def)
  have b: "checkConvergence DEFAULT_CONFIG
             [50 / 100, 60 / 100, 70 / 100, 85 / 100, 85 / 100, 86 / 100]"
    using checkConvergence_window
            [OF h, of "[50 / 100, 60 / 100, 70 / 100, 85 / 100, 85 / 100, 86 / 100]"]
    by (simp add: DEFAULT_CONFIG_def)
  from h a b show ?thesis by blast
qed

section \<open>The evaluator\<close>

lemmas sample_defs = sample_runtime_def scripted_def JSON_parse_sample_def test_judgement_def
  coerced_judgement_def unconvertible_judgement_def
  test_judgement_value_def new_optimizer_def after_test_judgement_def

lemma call_Completion:
  "create rt (length (sent st)) req = Completion content \<Longrightarrow>
   call rt req st = Inr (content, st\<lparr>sent := sent st @ [req]\<rparr>)"
  by (simp add: call_def)

lemma quickHeuristicFallback_eq:
  "quickHeuristicFallback prompt =
     5 / 10 + (if 50 < length prompt \<and> length prompt < 500 then 1 / 10 else 0)
       + (if includes_str prompt NL then 5 / 100 else 0)
       + (if match_digit_dot prompt then 5 / 100 else 0)
       + (if includes_str (toLowerCase prompt) ''step by step'' then 1 / 10 else 0)"
  by (simp add: quickHeuristicFallback_def Let_def)

lemma quickHeuristicFallback_bounds:
  "1 / 2 \<le> quickHeuristicFallback prompt \<and> quickHeuristicFallback prompt \<le> 4 / 5"
  by (simp add: quickHeuristicFallback_eq)

text \<open>
  Claim C4, amended. When the judge's content is a non-empty text that \<open>JSON.parse\<close>
  rejects (such as \<open>not json\<close>), \<open>scorePrompt\<close> does not throw: it returns the heuristic
  score, which depends on the prompt alone (a length between 50 and 500, a line feed, a
  digit followed by a full stop, the phrase \<open>step by step\<close>), is clipped to at most 1 and
  lies in \<open>(0, 1]\<close>; the optimizer only logs the request.
\<close>

theorem scorePrompt_unparseable:
  assumes resp: "create rt (length (sent st)) (JudgeRequest domain prompt) = Completion (Some content)"
    and ne: "content \<noteq> []"
    and parse: "JSON_parse rt content = None"
  shows "scorePrompt rt prompt domain st =
           Inr (Finite (quickHeuristicFallback prompt), st\<lparr>sent := sent st @ [JudgeRequest domain prompt]\<rparr>)
       \<and> quickHeuristicFallback prompt =
           min (5 / 10 + (if 50 < length prompt \<and> length prompt < 500 then 1 / 10 else 0)
                 + (if includes_str prompt NL then 5 / 100 else 0)
                 + (if match_digit_dot prompt then 5 / 100 else 0)
                 + (if includes_str (toLowerCase prompt) ''step by step'' then 1 / 10 else 0)) 1
       \<and> 0 < quickHeuristicFallback prompt \<and> quickHeuristicFallback prompt \<le> 1"
proof (intro conjI)
  show "scorePrompt rt prompt domain st =
          Inr (Finite (quickHeuristicFallback prompt), st\<lparr>sent := sent st @ [JudgeRequest domain prompt]\<rparr>)"
    by (simp add: scorePrompt_def call_Completion [OF resp] or_default_def ne parse)
  show "quickHeuristicFallback prompt =
           min (5 / 10 + (if 50 < length prompt \<and> length prompt < 500 then 1 / 10 else 0)
                 + (if includes_str prompt NL then 5 / 100 else 0)
                 + (if match_digit_dot prompt then 5 / 100 else 0)
                 + (if includes_str (toLowerCase prompt) ''step by step'' then 1 / 10 else 0)) 1"
    by (simp add: quickHeuristicFallback_def Let_def)
  show "0 < quickHeuristicFallback prompt"
    using quickHeuristicFallback_bounds [of prompt] by linarith
  show "quickHeuristicFallback prompt \<le> 1"
    using quickHeuristicFallback_bounds [of prompt] by linarith
qed

theorem scorePrompt_unparseable_witness:
  "create (sample_runtime [Completion (Some ''not json'')]) (length (sent (new_optimizer None)))
       (JudgeRequest ''general'' ''Test prompt'') = Completion (Some ''not json'')
   \<and> ''not json'' \<noteq> []
   \<and> JSON_parse (sample_runtime [Completion (Some ''not json'')]) ''not json'' = None
   \<and> scorePrompt (sample_runtime [Completion (Some ''not json'')]) ''Test prompt'' ''general''
         (new_optimizer None)
       = Inr (Finite (1 / 2), (new_optimizer None)\<lparr>sent := [JudgeRequest ''general'' ''Test prompt'']\<rparr>)"
proof -
  let ?rt = "sample_runtime [Completion (Some ''not json'')]"
  have a: "create ?rt (length (sent (new_optimizer None))) (JudgeRequest ''general'' ''Test prompt'')
             = Completion (Some ''not json'')"
    by (simp add: sample_defs)
  have b: "''not json'' \<noteq> []" by simp
  have c: "JSON_parse ?rt ''not json'' = None" by (simp add: sample_defs)
  have q: "quickHeuristicFallback ''Test prompt'' = 1 / 2"
    by (simp add: quickHeuristicFallback_def toLowerCase_def lower_char_def is_digit_def)
  from scorePrompt_unparseable [OF a b c] a b c q show ?thesis
    by (simp add: new_optimizer_def)
qed

text \<open>
  Claim C4 as stated fails on the empty content: it is not JSON, yet the source parses
  \<open>{}\<close> in its place and returns the score 0 of a judgement without criteria, not the
  heuristic score (here a half).
\<close>

theorem scorePrompt_empty_content_counterexample:
  "JSON_parse (sample_runtime [Completion (Some [])]) [] = None
   \<and> scorePrompt (sample_runtime [Completion (Some [])]) ''Test prompt'' ''general''
         (new_optimizer None)
       = Inr (Finite 0, (new_optimizer None)\<lparr>sent := [JudgeRequest ''general'' ''Test prompt''],
                  lastEvaluation := Some \<lparr>scores = JObj [], reasoning = None, weightedScore = Finite 0\<rparr>\<rparr>)
   \<and> quickHeuristicFallback ''Test prompt'' = 1 / 2"
  by (simp add: sample_defs scorePrompt_def call_def or_default_def judged_def
        EVALUATION_CRITERIA_def or_zero_def ToNumber_def quickHeuristicFallback_def
        toLowerCase_def lower_char_def is_digit_def)

text \<open>
  Claim C3. When the judge's content parses to a JSON object whose five criteria are
  numbers, \<open>scorePrompt\<close> returns the sum of value / 10 times weight over the criteria,
  with the weights 0.25 (clarity), 0.25 (specificity), 0.20 (completeness), 0.15
  (structure) and 0.15 (effectiveness), and retains the judgement; for the values 8, 7,
  6, 8, 7 of the unit test the score is 0.72.
\<close>

theorem scorePrompt_weighted:
  assumes resp: "create rt (length (sent st)) (JudgeRequest domain prompt) = Completion (Some content)"
    and ne: "content \<noteq> []"
    and parse: "JSON_parse rt content = Some (JObj props)"
    and c1: "map_of props ''clarity'' = Some (JNum c1)"
    and c2: "map_of props ''specificity'' = Some (JNum c2)"
    and c3: "map_of props ''completeness'' = Some (JNum c3)"
    and c4: "map_of props ''structure'' = Some (JNum c4)"
    and c5: "map_of props ''effectiveness'' = Some (JNum c5)"
  shows "scorePrompt rt prompt domain st =
           Inr (Finite (c1 / 10 * (25 / 100) + c2 / 10 * (25 / 100) + c3 / 10 * (20 / 100)
                  + c4 / 10 * (15 / 100) + c5 / 10 * (15 / 100)),
                st\<lparr>sent := sent st @ [JudgeRequest domain prompt],
                     lastEvaluation := Some \<lparr>scores = JObj props,
                       reasoning = map_of props ''reasoning'',
                       weightedScore = Finite (c1 / 10 * (25 / 100) + c2 / 10 * (25 / 100)
                         + c3 / 10 * (20 / 100) + c4 / 10 * (15 / 100)
                         + c5 / 10 * (15 / 100))\<rparr>\<rparr>)
       \<and> scorePrompt (sample_runtime [Completion (Some test_judgement)]) ''Test prompt'' ''general''
             (new_optimizer None)
           = Inr (Finite (72 / 100), after_test_judgement)"
proof
  have tn: "ToNumber (or_zero (Some (JNum x))) = Inr (Finite x)" for x
    by (simp add: or_zero_def ToNumber_def)
  have w: "weigh (JObj props) EVALUATION_CRITERIA (Finite 0) =
             Inr (Finite (c1 / 10 * (25 / 100) + c2 / 10 * (25 / 100) + c3 / 10 * (20 / 100)
                  + c4 / 10 * (15 / 100) + c5 / 10 * (15 / 100)))"
    by (simp add: EVALUATION_CRITERIA_def c1 c2 c3 c4 c5 tn)
  have j: "judged (JObj props) = Inr \<lparr>scores = JObj props, reasoning = map_of props ''reasoning'',
             weightedScore = Finite (c1 / 10 * (25 / 100) + c2 / 10 * (25 / 100)
                  + c3 / 10 * (20 / 100) + c4 / 10 * (15 / 100) + c5 / 10 * (15 / 100))\<rparr>"
    by (simp add: judged_def w)
  show "scorePrompt rt prompt domain st =
           Inr (Finite (c1 / 10 * (25 / 100) + c2 / 10 * (25 / 100) + c3 / 10 * (20 / 100)
                  + c4 / 10 * (15 / 100) + c5 / 10 * (15 / 100)),
                st\<lparr>sent := sent st @ [JudgeRequest domain prompt],
                     lastEvaluation := Some \<lparr>scores = JObj props,
                       reasoning = map_of props ''reasoning'',
                       weightedScore = Finite (c1 / 10 * (25 / 100) + c2 / 10 * (25 / 100)
                         + c3 / 10 * (20 / 100) + c4 / 10 * (15 / 100)
                         + c5 / 10 * (15 / 100))\<rparr>\<rparr>)"
    by (simp add: scorePrompt_def call_Completion [OF resp] or_default_def ne parse j)
next
  show "scorePrompt (sample_runtime [Completion (Some test_judgement)]) ''Test prompt'' ''general''
             (new_optimizer None)
           = Inr (Finite (72 / 100), after_test_judgement)"
    by (simp add: sample_defs scorePrompt_def call_def or_default_def judged_def
          EVALUATION_CRITERIA_def or_zero_def ToNumber_def DEFAULT_CONFIG_def)
qed

theorem scorePrompt_weighted_witness:
  "create (sample_runtime [Completion (Some test_judgement)]) (length (sent (new_optimizer None)))
       (JudgeRequest ''general'' ''Test prompt'') = Completion (Some test_judgement)
   \<and> test_judgement \<noteq> []
   \<and> JSON_parse (sample_runtime [Completion (Some test_judgement)]) test_judgement
       = Some test_judgement_value
   \<and> scorePrompt (sample_runtime [Completion (Some test_judgement)]) ''Test prompt'' ''general''
         (new_optimizer None)
       = Inr (Finite (72 / 100), after_test_judgement)"
proof -
  let ?rt = "sample_runtime [Completion (Some test_judgement)]"
  let ?props = "[(''clarity'', JNum 8), (''specificity'', JNum 7), (''completeness'', JNum 6),
           (''structure'', JNum 8), (''effectiveness'', JNum 7),
           (''reasoning'', JStr ''Good prompt with clear structure'')]"
  have a: "create ?rt (length (sent (new_optimizer None))) (JudgeRequest ''general'' ''Test prompt'')
             = Completion (Some test_judgement)"
    by (simp add: sample_runtime_def scripted_def new_optimizer_def)
  have b: "test_judgement \<noteq> []" by (simp add: test_judgement_def)
  have c: "JSON_parse ?rt test_judgement = Some (JObj ?props)"
    by (simp add: sample_defs)
  have "scorePrompt ?rt ''Test prompt'' ''general'' (new_optimizer None)
          = Inr (Finite (72 / 100), after_test_judgement)"
    using scorePrompt_weighted [OF a b c, of 8 7 6 8 7, THEN conjunct1]
    by (simp add: new_optimizer_def after_test_judgement_def test_judgement_value_def)
  with a b c show ?thesis by (simp add: test_judgement_value_def)
qed

lemma ToNumber_convertible: "\<not> unconvertible v \<Longrightarrow> \<exists>n. ToNumber v = Inr n"
  by (cases v) (simp_all add: ToNumber_def)

lemma get_property_not_null: "evaluation \<noteq> JNull \<Longrightarrow> \<exists>v. get_property evaluation k = Inr v"
  by (cases evaluation) simp_all

text \<open>What a criterion adds to the accumulator in the loop of \<open>scorePrompt\<close>.\<close>

lemma ToNumber_or_zero:
  assumes "get_property evaluation c = Inr v"
    and "\<forall>x. v = Some x \<longrightarrow> \<not> unconvertible x"
  shows "ToNumber (or_zero v) = Inr (criterion_number evaluation c)"
proof (cases v)
  case None
  with assms(1) show ?thesis by (simp add: or_zero_def criterion_number_def ToNumber_def)
next
  case (Some x)
  show ?thesis
  proof (cases "truthy x")
    case False
    with Some assms(1) show ?thesis
      by (simp add: or_zero_def criterion_number_def ToNumber_def)
  next
    case True
    from assms(2) Some have "\<not> unconvertible x" by simp
    from ToNumber_convertible [OF this] obtain n where "ToNumber x = Inr n" ..
    with True Some assms(1) show ?thesis by (simp add: or_zero_def criterion_number_def)
  qed
qed

lemma weigh_contributions:
  assumes "evaluation \<noteq> JNull"
    and "\<forall>c \<in> fst ` set cs. \<forall>v. get_property evaluation c = Inr (Some v) \<longrightarrow> \<not> unconvertible v"
  shows "weigh evaluation cs acc
           = Inr (foldl add_js acc
                    (map (\<lambda>(criterion, weight).
                            mul_js (div_js (criterion_number evaluation criterion) (Finite 10))
                              (Finite weight)) cs))"
  using assms(2)
proof (induction cs arbitrary: acc)
  case Nil
  show ?case by simp
next
  case (Cons cw cs)
  obtain c w where cw: "cw = (c, w)" by (cases cw)
  from get_property_not_null [OF assms(1)] obtain v
    where v: "get_property evaluation c = Inr v" by blast
  from Cons.prems cw v have "\<forall>x. v = Some x \<longrightarrow> \<not> unconvertible x" by simp
  from ToNumber_or_zero [OF v this]
  have n: "ToNumber (or_zero v) = Inr (criterion_number evaluation c)" .
  from Cons.prems
  have rest: "\<forall>c \<in> fst ` set cs. \<forall>v. get_property evaluation c = Inr (Some v)
                \<longrightarrow> \<not> unconvertible v" by simp
  show ?case by (simp add: cw v n Cons.IH [OF rest])
qed

lemma unconvertible_truthy: "unconvertible x \<Longrightarrow> truthy x"
  by (cases x) simp_all

text \<open>A criterion that cannot be converted stops the loop with a \<open>TypeError\<close>, whatever
  the criteria before it are.\<close>

lemma weigh_unconvertible:
  assumes "\<exists>c \<in> fst ` set cs. \<exists>v. get_property evaluation c = Inr (Some v) \<and> unconvertible v"
  shows "\<exists>e. weigh evaluation cs acc = Inl e"
  using assms
proof (induction cs arbitrary: acc)
  case Nil
  then show ?case by simp
next
  case (Cons cw cs)
  obtain c w where cw: "cw = (c, w)" by (cases cw)
  show ?case
  proof (cases "get_property evaluation c")
    case (Inl e)
    then show ?thesis by (simp add: cw)
  next
    case (Inr v)
    show ?thesis
    proof (cases "ToNumber (or_zero v)")
      case (Inl e)
      with Inr show ?thesis by (simp add: cw)
    next
      case n: (Inr score)
      have "\<not> (\<exists>x. v = Some x \<and> unconvertible x)"
      proof
        assume "\<exists>x. v = Some x \<and> unconvertible x"
        then obtain x where x: "v = Some x" "unconvertible x" by blast
        with unconvertible_truthy [OF x(2)] have "ToNumber (or_zero v) = Inl TypeError"
          by (simp add: or_zero_def ToNumber_def)
        with n show False by simp
      qed
      with Cons.prems Inr cw
      have "\<exists>c \<in> fst ` set cs. \<exists>v. get_property evaluation c = Inr (Some v) \<and> unconvertible v"
        by auto
      from Cons.IH [OF this] Inr n show ?thesis by (simp add: cw)
    qed
  qed
qed

text \<open>
  Claim C9, amended. When the judge's content, or \<open>{}\<close> in place of an empty or absent
  content, parses to a JSON value other than \<open>null\<close> in which no criterion is an object
  with a property \<open>toString\<close> of its own (or an array that holds one), \<open>scorePrompt\<close> does
  not use the heuristic: it returns the weighted sum and retains the judgement, a
  criterion that is missing contributes 0, and the judgement \<open>{}\<close> scores exactly 0. When
  the content parses to \<open>null\<close> or to a value with such a criterion, \<open>scorePrompt\<close> returns
  the heuristic score and retains nothing.
\<close>

theorem scorePrompt_missing_criteria:
  assumes resp: "create rt (length (sent st)) (JudgeRequest domain prompt) = Completion content"
    and parse: "JSON_parse rt (or_default content ''{}'') = Some evaluation"
  shows "(evaluation \<noteq> JNull
            \<and> (\<forall>c \<in> fst ` set EVALUATION_CRITERIA.
                 \<forall>v. get_property evaluation c = Inr (Some v) \<longrightarrow> \<not> unconvertible v)
          \<longrightarrow> scorePrompt rt prompt domain st =
                Inr (weighted_sum evaluation,
                     st\<lparr>sent := sent st @ [JudgeRequest domain prompt],
                        lastEvaluation := Some \<lparr>scores = evaluation,
                          reasoning = (case get_property evaluation ''reasoning'' of
                                         Inl e \<Rightarrow> None | Inr v \<Rightarrow> v),
                          weightedScore = weighted_sum evaluation\<rparr>\<rparr>))
       \<and> (evaluation = JNull
            \<or> (\<exists>c \<in> fst ` set EVALUATION_CRITERIA.
                 \<exists>v. get_property evaluation c = Inr (Some v) \<and> unconvertible v)
          \<longrightarrow> scorePrompt rt prompt domain st =
                Inr (Finite (quickHeuristicFallback prompt),
                     st\<lparr>sent := sent st @ [JudgeRequest domain prompt]\<rparr>))
       \<and> (\<forall>c. get_property evaluation c = Inr None \<longrightarrow> criterion_number evaluation c = Finite 0)
       \<and> (evaluation = JObj [] \<longrightarrow>
            scorePrompt rt prompt domain st =
              Inr (Finite 0, st\<lparr>sent := sent st @ [JudgeRequest domain prompt],
                         lastEvaluation := Some \<lparr>scores = JObj [], reasoning = None,
                           weightedScore = Finite 0\<rparr>\<rparr>))"
proof (intro conjI allI impI)
  assume h: "evaluation \<noteq> JNull
            \<and> (\<forall>c \<in> fst ` set EVALUATION_CRITERIA.
                 \<forall>v. get_property evaluation c = Inr (Some v) \<longrightarrow> \<not> unconvertible v)"
  then have nn: "evaluation \<noteq> JNull"
    and conv: "\<forall>c \<in> fst ` set EVALUATION_CRITERIA.
                 \<forall>v. get_property evaluation c = Inr (Some v) \<longrightarrow> \<not> unconvertible v"
    by blast+
  have w: "weigh evaluation EVALUATION_CRITERIA (Finite 0) = Inr (weighted_sum evaluation)"
    using weigh_contributions [OF nn conv, of "Finite 0"] by (simp add: weighted_sum_def)
  from get_property_not_null [OF nn] obtain v
    where v: "get_property evaluation ''reasoning'' = Inr v" by blast
  have j: "judged evaluation
             = Inr \<lparr>scores = evaluation, reasoning = v, weightedScore = weighted_sum evaluation\<rparr>"
    by (simp add: judged_def w v)
  show "scorePrompt rt prompt domain st =
           Inr (weighted_sum evaluation,
                st\<lparr>sent := sent st @ [JudgeRequest domain prompt],
                   lastEvaluation := Some \<lparr>scores = evaluation,
                     reasoning = (case get_property evaluation ''reasoning'' of
                                    Inl e \<Rightarrow> None | Inr v \<Rightarrow> v),
                     weightedScore = weighted_sum evaluation\<rparr>\<rparr>)"
    by (simp add: scorePrompt_def call_Completion [OF resp] parse j v)
next
  assume h: "evaluation = JNull
            \<or> (\<exists>c \<in> fst ` set EVALUATION_CRITERIA.
                 \<exists>v. get_property evaluation c = Inr (Some v) \<and> unconvertible v)"
  have "\<exists>e. weigh evaluation EVALUATION_CRITERIA (Finite 0) = Inl e"
    using h
  proof
    assume "evaluation = JNull"
    then show ?thesis by (simp add: EVALUATION_CRITERIA_def)
  next
    assume "\<exists>c \<in> fst ` set EVALUATION_CRITERIA.
              \<exists>v. get_property evaluation c = Inr (Some v) \<and> unconvertible v"
    then show ?thesis by (rule weigh_unconvertible)
  qed
  then obtain e where "judged evaluation = Inl e" by (auto simp: judged_def)
  then show "scorePrompt rt prompt domain st =
                Inr (Finite (quickHeuristicFallback prompt),
                     st\<lparr>sent := sent st @ [JudgeRequest domain prompt]\<rparr>)"
    by (simp add: scorePrompt_def call_Completion [OF resp] parse)
next
  fix c
  assume "get_property evaluation c = Inr None"
  then show "criterion_number evaluation c = Finite 0" by (simp add: criterion_number_def)
next
  assume "evaluation = JObj []"
  with parse show "scorePrompt rt prompt domain st =
              Inr (Finite 0, st\<lparr>sent := sent st @ [JudgeRequest domain prompt],
                         lastEvaluation := Some \<lparr>scores = JObj [], reasoning = None,
                           weightedScore = Finite 0\<rparr>\<rparr>)"
    by (simp add: scorePrompt_def call_Completion [OF resp] judged_def EVALUATION_CRITERIA_def
          or_zero_def ToNumber_def)
qed

theorem scorePrompt_missing_criteria_witness:
  "create (sample_runtime [Completion None]) (length (sent (new_optimizer None)))
       (JudgeRequest ''general'' ''Test prompt'') = Completion None
   \<and> JSON_parse (sample_runtime [Completion None]) (or_default None ''{}'') = Some (JObj [])
   \<and> JObj [] \<noteq> JNull
   \<and> scorePrompt (sample_runtime [Completion None]) ''Test prompt'' ''general'' (new_optimizer None)
       = Inr (Finite 0, (new_optimizer None)\<lparr>sent := [JudgeRequest ''general'' ''Test prompt''],
                  lastEvaluation := Some \<lparr>scores = JObj [], reasoning = None,
                    weightedScore = Finite 0\<rparr>\<rparr>)
   \<and> create (sample_runtime [Completion (Some coerced_judgement)])
         (length (sent (new_optimizer None))) (JudgeRequest ''general'' ''Test prompt'')
       = Completion (Some coerced_judgement)
   \<and> JSON_parse (sample_runtime [Completion (Some coerced_judgement)])
         (or_default (Some coerced_judgement) ''{}'')
       = Some (JObj [(''clarity'', JStr ''8''), (''specificity'', JBool True)])
   \<and> \<not> unconvertible (JStr ''8'') \<and> \<not> unconvertible (JBool True)
   \<and> scorePrompt (sample_runtime [Completion (Some coerced_judgement)]) ''Test prompt''
         ''general'' (new_optimizer None)
       = Inr (Finite (8 / 10 * (25 / 100) + 1 / 10 * (25 / 100)),
              (new_optimizer None)\<lparr>sent := [JudgeRequest ''general'' ''Test prompt''],
                  lastEvaluation := Some
                    \<lparr>scores = JObj [(''clarity'', JStr ''8''), (''specificity'', JBool True)],
                     reasoning = None,
                     weightedScore = Finite (8 / 10 * (25 / 100) + 1 / 10 * (25 / 100))\<rparr>\<rparr>)
   \<and> create (sample_runtime [Completion (Some ''null'')])
         (length (sent (new_optimizer None))) (JudgeRequest ''general'' ''Test prompt'')
       = Completion (Some ''null'')
   \<and> JSON_parse (sample_runtime [Completion (Some ''null'')]) (or_default (Some ''null'') ''{}'')
       = Some JNull
   \<and> scorePrompt (sample_runtime [Completion (Some ''null'')]) ''Test prompt'' ''general''
         (new_optimizer None)
       = Inr (Finite (quickHeuristicFallback ''Test prompt''),
              (new_optimizer None)\<lparr>sent := [JudgeRequest ''general'' ''Test prompt'']\<rparr>)"
proof -
  let ?rt = "sample_runtime [Completion None]"
  have a: "create ?rt (length (sent (new_optimizer None))) (JudgeRequest ''general'' ''Test prompt'')
             = Completion None"
    by (simp add: sample_runtime_def scripted_def new_optimizer_def)
  have b: "JSON_parse ?rt (or_default None ''{}'') = Some (JObj [])"
    by (simp add: sample_defs or_default_def)
  have c: "JObj [] \<noteq> JNull" by simp
  have d: "\<forall>c \<in> fst ` set EVALUATION_CRITERIA.
             \<forall>v. get_property (JObj []) c = Inr (Some v) \<longrightarrow> \<not> unconvertible v"
    by simp
  from scorePrompt_missing_criteria
         [OF a b, THEN conjunct2, THEN conjunct2, THEN conjunct2, THEN mp, OF refl]
  have e: "scorePrompt ?rt ''Test prompt'' ''general'' (new_optimizer None)
       = Inr (Finite 0, (new_optimizer None)\<lparr>sent := [JudgeRequest ''general'' ''Test prompt''],
                  lastEvaluation := Some \<lparr>scores = JObj [], reasoning = None,
                    weightedScore = Finite 0\<rparr>\<rparr>)"
    by (simp add: new_optimizer_def)
  let ?rt' = "sample_runtime [Completion (Some coerced_judgement)]"
  let ?ev = "JObj [(''clarity'', JStr ''8''), (''specificity'', JBool True)]"
  have a': "create ?rt' (length (sent (new_optimizer None)))
              (JudgeRequest ''general'' ''Test prompt'') = Completion (Some coerced_judgement)"
    by (simp add: sample_runtime_def scripted_def new_optimizer_def)
  have b': "JSON_parse ?rt' (or_default (Some coerced_judgement) ''{}'') = Some ?ev"
    by (simp add: sample_defs or_default_def)
  have c': "?ev \<noteq> JNull" by simp
  have u: "\<not> unconvertible (JStr ''8'')" "\<not> unconvertible (JBool True)" by simp_all
  have d': "\<forall>c \<in> fst ` set EVALUATION_CRITERIA.
             \<forall>v. get_property ?ev c = Inr (Some v) \<longrightarrow> \<not> unconvertible v"
    by (simp add: EVALUATION_CRITERIA_def)
  have s: "weighted_sum ?ev = Finite (8 / 10 * (25 / 100) + 1 / 10 * (25 / 100))"
    by (simp add: weighted_sum_def criterion_number_def EVALUATION_CRITERIA_def ToNumber_def
          StringToNumber_def trim_def is_space_def unsigned_decimal_def is_decimal_digit_def
          digit_value_def exponent_part_def decimal_value_def double_def)
  from scorePrompt_missing_criteria [OF a' b', THEN conjunct1, THEN mp, OF conjI [OF c' d']]
  have e': "scorePrompt ?rt' ''Test prompt'' ''general'' (new_optimizer None)
       = Inr (Finite (8 / 10 * (25 / 100) + 1 / 10 * (25 / 100)),
              (new_optimizer None)\<lparr>sent := [JudgeRequest ''general'' ''Test prompt''],
                  lastEvaluation := Some
                    \<lparr>scores = ?ev, reasoning = None,
                     weightedScore = Finite (8 / 10 * (25 / 100) + 1 / 10 * (25 / 100))\<rparr>\<rparr>)"
    by (simp add: s new_optimizer_def)
  let ?rt'' = "sample_runtime [Completion (Some ''null'')]"
  have a'': "create ?rt'' (length (sent (new_optimizer None)))
               (JudgeRequest ''general'' ''Test prompt'') = Completion (Some ''null'')"
    by (simp add: sample_runtime_def scripted_def new_optimizer_def)
  have b'': "JSON_parse ?rt'' (or_default (Some ''null'') ''{}'') = Some JNull"
    by (simp add: sample_defs or_default_def)
  from scorePrompt_missing_criteria
         [OF a'' b'', THEN conjunct2, THEN conjunct1, THEN mp, OF disjI1 [OF refl]]
  have e'': "scorePrompt ?rt'' ''Test prompt'' ''general'' (new_optimizer None)
       = Inr (Finite (quickHeuristicFallback ''Test prompt''),
              (new_optimizer None)\<lparr>sent := [JudgeRequest ''general'' ''Test prompt'']\<rparr>)"
    by (simp add: new_optimizer_def)
  from a b c e a' b' u e' a'' b'' e'' show ?thesis by blast
qed

text \<open>
  Claim C9 as stated fails on two judgements that parse and have at most one of the
  criteria. On \<open>null\<close>, reading a criterion throws inside the \<open>try\<close> block; on an object
  whose \<open>clarity\<close> is an object with a property \<open>toString\<close>, the division \<open>score / 10\<close>
  throws there. Both times the heuristic score is returned and nothing is retained.
\<close>

theorem scorePrompt_null_counterexample:
  "JSON_parse (sample_runtime [Completion (Some ''null'')]) ''null'' = Some JNull
   \<and> scorePrompt (sample_runtime [Completion (Some ''null'')]) ''Test prompt'' ''general''
         (new_optimizer None)
       = Inr (Finite (quickHeuristicFallback ''Test prompt''),
              (new_optimizer None)\<lparr>sent := [JudgeRequest ''general'' ''Test prompt'']\<rparr>)
   \<and> JSON_parse (sample_runtime [Completion (Some unconvertible_judgement)])
         unconvertible_judgement
       = Some (JObj [(''clarity'', JObj [(''toString'', JNum 1)])])
   \<and> scorePrompt (sample_runtime [Completion (Some unconvertible_judgement)]) ''Test prompt''
         ''general'' (new_optimizer None)
       = Inr (Finite (quickHeuristicFallback ''Test prompt''),
              (new_optimizer None)\<lparr>sent := [JudgeRequest ''general'' ''Test prompt'']\<rparr>)
   \<and> quickHeuristicFallback ''Test prompt'' = 1 / 2"
  by (simp add: sample_defs scorePrompt_def call_def or_default_def judged_def
        EVALUATION_CRITERIA_def or_zero_def ToNumber_def quickHeuristicFallback_def
        toLowerCase_def lower_char_def is_digit_def)

section \<open>Cosine similarity\<close>

lemma nearest_zero:
  assumes "nearest rnd"
  shows "rnd 0 = 0"
proof -
  from assms have "rnd (- 0) = - rnd 0" unfolding nearest_def by blast
  then show ?thesis by simp
qed

lemma nearest_minus: "nearest rnd \<Longrightarrow> rnd (- x) = - rnd x"
  by (simp add: nearest_def)

lemma nearest_bounds:
  assumes n: "nearest rnd" and u: "u = 1 / 2 ^ 53"
    and x: "1 / 2 ^ 1022 \<le> x" and xh: "x \<le> 2 ^ 1023"
  shows "x * (1 - u) \<le> rnd x \<and> rnd x \<le> x * (1 + u)"
proof -
  have "(0 :: real) < 1 / 2 ^ 1022" by simp
  with x have pos: "0 < x" by linarith
  then have ax: "\<bar>x\<bar> = x" by simp
  have "(2 :: real) ^ 1023 < 2 ^ 1024" by simp
  with xh have xl: "x < 2 ^ 1024" by linarith
  from n have "1 / 2 ^ 1022 \<le> \<bar>x\<bar> \<and> \<bar>x\<bar> < 2 ^ 1024 \<longrightarrow> \<bar>rnd x - x\<bar> \<le> \<bar>x\<bar> / 2 ^ 53"
    unfolding nearest_def by blast
  with x xl have "\<bar>rnd x - x\<bar> \<le> x / 2 ^ 53" by (simp only: ax simp_thms)
  also have "x / 2 ^ 53 = x * u" by (simp only: u times_divide_eq_right mult_1_right)
  finally have "\<bar>rnd x - x\<bar> \<le> x * u" .
  then show ?thesis by (simp add: abs_le_iff algebra_simps)
qed

lemma double_normal:
  assumes "1 / 2 ^ 1022 \<le> \<bar>x\<bar>" and "\<bar>x\<bar> \<le> 2 ^ 1023"
  shows "double x = Finite x"
proof -
  have "(1 :: real) / 2 ^ 1075 < 1 / 2 ^ 1022" by simp
  moreover have "(2 :: real) ^ 1023 < 2 ^ 1024 - 2 ^ 970" by simp
  ultimately have "\<not> 2 ^ 1024 - 2 ^ 970 \<le> \<bar>x\<bar>" "\<not> \<bar>x\<bar> \<le> 1 / 2 ^ 1075"
    using assms by linarith+
  then show ?thesis by (simp only: double_def if_False simp_thms)
qed

lemma rounded_normal:
  assumes "1 / 2 ^ 1022 \<le> \<bar>x\<bar>" and "\<bar>x\<bar> \<le> 2 ^ 1023"
  shows "rounded rnd (Finite x) = Finite (rnd x)"
  by (simp only: rounded_def in_range.simps double_normal [OF assms] number.case)

lemma double_zero: "double 0 = Finite 0"
  by (simp add: double_def)

lemma rounded_zero: "nearest rnd \<Longrightarrow> rounded rnd (Finite 0) = Finite 0"
  by (simp only: rounded_def in_range.simps double_zero number.case nearest_zero)

lemma rounded_minus:
  assumes n: "nearest rnd" and r: "rounded rnd (Finite y) = Finite z"
  shows "rounded rnd (Finite (- y)) = Finite (- z)"
proof -
  consider (big) "2 ^ 1024 - 2 ^ 970 \<le> \<bar>y\<bar>"
    | (tiny) "\<not> 2 ^ 1024 - 2 ^ 970 \<le> \<bar>y\<bar>" "\<bar>y\<bar> \<le> 1 / 2 ^ 1075"
    | (normal) "\<not> 2 ^ 1024 - 2 ^ 970 \<le> \<bar>y\<bar>" "\<not> \<bar>y\<bar> \<le> 1 / 2 ^ 1075"
    by blast
  then show ?thesis
  proof cases
    case big
    then have "double y = signed_infinity (0 < y)" by (simp only: double_def if_True simp_thms)
    with r show ?thesis
      by (simp only: rounded_def in_range.simps signed_infinity_def split: if_splits) simp_all
  next
    case tiny
    then have "double y = Finite 0" by (simp only: double_def if_True if_False simp_thms)
    with r have z: "z = 0" by (simp add: rounded_def nearest_zero [OF n])
    from tiny have "\<not> 2 ^ 1024 - 2 ^ 970 \<le> \<bar>- y\<bar>" "\<bar>- y\<bar> \<le> 1 / 2 ^ 1075"
      by (simp_all only: abs_minus_cancel simp_thms)
    then have "double (- y) = Finite 0" by (simp only: double_def if_True if_False simp_thms)
    then show ?thesis by (simp add: rounded_def nearest_zero [OF n] z)
  next
    case normal
    then have "double y = Finite y" by (simp only: double_def if_False simp_thms)
    with r have z: "z = rnd y" by (simp add: rounded_def)
    from normal have "\<not> 2 ^ 1024 - 2 ^ 970 \<le> \<bar>- y\<bar>" "\<not> \<bar>- y\<bar> \<le> 1 / 2 ^ 1075"
      by (simp_all only: abs_minus_cancel simp_thms)
    then have "double (- y) = Finite (- y)" by (simp only: double_def if_False simp_thms)
    then show ?thesis by (simp add: rounded_def nearest_minus [OF n] z)
  qed
qed

lemma rounded_scaled:
  assumes n: "nearest rnd" and c: "c = 1 \<or> c = - 1"
    and r: "rounded rnd (Finite y) = Finite z"
  shows "rounded rnd (Finite (c * y)) = Finite (c * z)"
  using c
proof
  assume "c = 1"
  with r show ?thesis by simp
next
  assume "c = - 1"
  with rounded_minus [OF n r] show ?thesis by simp
qed

lemma square_bounds:
  fixes x k :: real
  assumes k: "0 < k" and lo: "1 / k \<le> \<bar>x\<bar>" and hi: "\<bar>x\<bar> \<le> k"
  shows "1 / (k * k) \<le> x * x \<and> x * x \<le> k * k"
proof -
  have xx: "\<bar>x\<bar> * \<bar>x\<bar> = x * x" by (rule abs_mult_self_eq)
  have k0: "0 \<le> 1 / k" using k by simp
  have "(1 / k) * (1 / k) \<le> \<bar>x\<bar> * \<bar>x\<bar>"
    using lo lo _ k0 by (rule mult_mono) simp
  moreover have "\<bar>x\<bar> * \<bar>x\<bar> \<le> k * k"
    using hi hi _ _ by (rule mult_mono) (use k in simp_all)
  moreover have "(1 / k) * (1 / k) = 1 / (k * k)" by simp
  ultimately show ?thesis by (simp only: xx)
qed

lemma square_in_range:
  fixes x :: real
  assumes "x = 0 \<or> (1 / 2 ^ 500 \<le> \<bar>x\<bar> \<and> \<bar>x\<bar> \<le> 2 ^ 500)"
  shows "x * x = 0 \<or> (1 / 2 ^ 1000 \<le> x * x \<and> x * x \<le> 2 ^ 1000)"
proof -
  have n: "(500 :: nat) + 500 = 1000" by simp
  have p: "(2 :: real) ^ 500 * 2 ^ 500 = 2 ^ 1000"
    by (simp only: power_add [symmetric] n)
  have k: "(0 :: real) < 2 ^ 500" by (rule zero_less_power) simp
  from assms show ?thesis
  proof
    assume "x = 0"
    then show ?thesis by simp
  next
    assume "1 / 2 ^ 500 \<le> \<bar>x\<bar> \<and> \<bar>x\<bar> \<le> 2 ^ 500"
    then have "1 / 2 ^ 500 \<le> \<bar>x\<bar>" and "\<bar>x\<bar> \<le> 2 ^ 500" by blast+
    from square_bounds [OF k this]
    have "1 / 2 ^ 1000 \<le> x * x \<and> x * x \<le> 2 ^ 1000" by (simp only: p)
    then show ?thesis ..
  qed
qed

text \<open>One pass of the loop on a component \<open>x\<close>, for an accumulator \<open>t\<close> that has taken
  \<open>k\<close> squares: the rounded square and the rounded sum stay in the range, and the sum
  stays between bounds that grow with \<open>k\<close>.\<close>

lemma accumulate_step:
  fixes t x u :: real and k :: nat
  assumes n: "nearest rnd" and u: "u = 1 / 2 ^ 53"
    and x: "x = 0 \<or> (1 / 2 ^ 500 \<le> \<bar>x\<bar> \<and> \<bar>x\<bar> \<le> 2 ^ 500)"
    and k: "k < 2 ^ 20"
    and tu: "t \<le> real k * 2 ^ 1002"
    and tl: "t = 0 \<or> 1 / 2 ^ 1001 * (1 - real k * u) \<le> t"
  shows "\<exists>q t'. rounded rnd (Finite (x * x)) = Finite q
            \<and> rounded rnd (Finite (t + q)) = Finite t'
            \<and> t' \<le> real (Suc k) * 2 ^ 1002
            \<and> (t' = 0 \<or> 1 / 2 ^ 1001 * (1 - real (Suc k) * u) \<le> t')
            \<and> (t \<noteq> 0 \<or> x \<noteq> 0 \<longrightarrow> t' \<noteq> 0)"
proof -
  define B :: real where "B = 2 ^ 1000"
  define L :: real where "L = 1 / 2 ^ 1001"
  define K where "K = real k"
  have Bpos: "0 < B" by (simp add: B_def)
  have Lpos: "0 < L" by (simp add: L_def)
  have B4: "(2 :: real) ^ 1002 = 4 * B" by (simp add: B_def)
  have upos: "0 < u" and uhalf: "u \<le> 1 / 2" by (simp_all add: u)
  have K0: "0 \<le> K" by (simp add: K_def)
  have "real k < real (2 ^ 20)" using k by (simp only: of_nat_less_iff)
  then have K20: "K \<le> 2 ^ 20" by (simp add: K_def)
  have Ku: "K * u \<le> 1 / 4"
  proof -
    have "K * u \<le> 2 ^ 20 * u" using K20 upos by (intro mult_right_mono) simp_all
    also have "\<dots> \<le> 1 / 4" by (simp add: u)
    finally show ?thesis .
  qed
  have tu': "t \<le> K * (4 * B)" using tu by (simp only: K_def B4)
  have tl': "t = 0 \<or> L * (1 - K * u) \<le> t" using tl by (simp only: K_def L_def)
  have Lk0: "0 \<le> L * (1 - K * u)" using Lpos Ku by (intro mult_nonneg_nonneg) simp_all
  have t0: "0 \<le> t" using tl' Lk0 by auto
  have Lnormal: "1 / 2 ^ 1022 \<le> L * (1 / 2)" by (simp add: L_def)
  have Bnormal: "2 ^ 20 * (4 * B) + 2 * B \<le> 2 ^ 1023" by (simp add: B_def)
  have sqL: "(1 :: real) / 2 ^ 1000 * (1 / 2) = L" by (simp add: L_def)
  have sqB: "(2 :: real) ^ 1000 = B" by (simp add: B_def)
  have sqn: "(1 :: real) / 2 ^ 1022 \<le> 1 / 2 ^ 1000" "(2 :: real) ^ 1000 \<le> 2 ^ 1023" by simp_all
  from square_in_range [OF x]
  have sq: "x * x = 0 \<or> (1 / 2 ^ 1000 \<le> x * x \<and> x * x \<le> 2 ^ 1000)" .
  have "\<exists>q. rounded rnd (Finite (x * x)) = Finite q \<and> (x = 0 \<longrightarrow> q = 0)
          \<and> (x \<noteq> 0 \<longrightarrow> L \<le> q \<and> q \<le> 2 * B)"
  proof (cases "x = 0")
    case True
    then show ?thesis using rounded_zero [OF n] by simp
  next
    case False
    with sq have lo: "1 / 2 ^ 1000 \<le> x * x" and hi: "x * x \<le> 2 ^ 1000" by auto
    have xx0: "0 \<le> x * x" by simp
    have nl: "1 / 2 ^ 1022 \<le> x * x" using lo sqn(1) by linarith
    have nh: "x * x \<le> 2 ^ 1023" using hi sqn(2) by linarith
    have r: "rounded rnd (Finite (x * x)) = Finite (rnd (x * x))"
      using nl nh by (intro rounded_normal) (simp_all only: abs_of_nonneg [OF xx0])
    from nearest_bounds [OF n u nl nh]
    have b: "x * x * (1 - u) \<le> rnd (x * x)" "rnd (x * x) \<le> x * x * (1 + u)" by blast+
    have "1 / 2 ^ 1000 * (1 / 2) \<le> x * x * (1 - u)"
      using lo uhalf by (intro mult_mono) simp_all
    then have "L \<le> x * x * (1 - u)" by (simp only: sqL)
    with b(1) have ql: "L \<le> rnd (x * x)" by linarith
    have "x * x * (1 + u) \<le> 2 ^ 1000 * 2"
      using hi uhalf upos by (intro mult_mono) simp_all
    then have "x * x * (1 + u) \<le> 2 * B" by (simp only: sqB mult.commute)
    with b(2) have qh: "rnd (x * x) \<le> 2 * B" by linarith
    from r ql qh False show ?thesis by blast
  qed
  then obtain q where q: "rounded rnd (Finite (x * x)) = Finite q"
    and q0: "x = 0 \<longrightarrow> q = 0" and qb: "x \<noteq> 0 \<longrightarrow> L \<le> q \<and> q \<le> 2 * B" by blast
  define s where "s = t + q"
  have Lk: "L * (1 - K * u) \<le> L"
  proof -
    have "0 \<le> K * u" using K0 upos by simp
    then have "L * (1 - K * u) \<le> L * 1" using Lpos by (intro mult_left_mono) simp_all
    then show ?thesis by simp
  qed
  have s1: "s = 0 \<or> (L * (1 - K * u) \<le> s \<and> s \<le> K * (4 * B) + 2 * B)"
  proof (cases "x = 0")
    case True
    with q0 have "s = t" by (simp add: s_def)
    with tl' tu' Bpos show ?thesis by auto
  next
    case False
    with qb have "L \<le> q" "q \<le> 2 * B" by auto
    with t0 tu' Lk have "L * (1 - K * u) \<le> s \<and> s \<le> K * (4 * B) + 2 * B"
      unfolding s_def by linarith
    then show ?thesis ..
  qed
  have s2: "t \<noteq> 0 \<or> x \<noteq> 0 \<longrightarrow> s \<noteq> 0"
  proof (cases "x = 0")
    case True
    with q0 show ?thesis by (simp add: s_def)
  next
    case False
    with qb have "L \<le> q" by auto
    with t0 Lpos have "0 < s" unfolding s_def by linarith
    then show ?thesis by simp
  qed
  have "\<exists>t'. rounded rnd (Finite s) = Finite t' \<and> t' \<le> (K + 1) * (4 * B)
          \<and> (t' = 0 \<or> L * (1 - (K + 1) * u) \<le> t') \<and> (s \<noteq> 0 \<longrightarrow> t' \<noteq> 0)"
  proof (cases "s = 0")
    case True
    have "0 \<le> (K + 1) * (4 * B)" using K0 Bpos by simp
    with True rounded_zero [OF n] show ?thesis by auto
  next
    case False
    with s1 have sl: "L * (1 - K * u) \<le> s" and sh: "s \<le> K * (4 * B) + 2 * B" by auto
    have "L * (1 / 2) \<le> L * (1 - K * u)" using Lpos Ku by (intro mult_left_mono) simp_all
    with sl Lnormal have nl: "1 / 2 ^ 1022 \<le> s" by linarith
    have "(0 :: real) < 1 / 2 ^ 1022" by simp
    with nl have spos: "0 < s" by linarith
    have "K * (4 * B) \<le> 2 ^ 20 * (4 * B)" using K20 Bpos by (intro mult_right_mono) simp_all
    with sh Bnormal have nh: "s \<le> 2 ^ 1023" by linarith
    have r: "rounded rnd (Finite s) = Finite (rnd s)"
      using nl nh by (intro rounded_normal) (simp_all only: abs_of_pos [OF spos])
    from nearest_bounds [OF n u nl nh]
    have b: "s * (1 - u) \<le> rnd s" "rnd s \<le> s * (1 + u)" by blast+
    have "s * (1 + u) \<le> (K * (4 * B) + 2 * B) * (1 + u)"
      using sh upos by (intro mult_right_mono) simp_all
    also have "\<dots> = B * ((4 * K + 2) * (1 + u))" by (simp add: algebra_simps)
    also have "\<dots> \<le> B * (4 * K + 4)"
    proof -
      have "(4 * K + 2) * u \<le> (4 * 2 ^ 20 + 2) * u"
        using K20 upos by (intro mult_right_mono) simp_all
      also have "\<dots> \<le> 2" by (simp add: u)
      finally have "(4 * K + 2) * (1 + u) \<le> 4 * K + 4" by (simp add: algebra_simps)
      with Bpos show ?thesis by (intro mult_left_mono) simp_all
    qed
    also have "\<dots> = (K + 1) * (4 * B)" by (simp add: algebra_simps)
    finally have up: "rnd s \<le> (K + 1) * (4 * B)" using b(2) by linarith
    have "L * (1 - (K + 1) * u) \<le> L * ((1 - K * u) * (1 - u))"
    proof -
      have "0 \<le> K * (u * u)" using K0 upos by simp
      then have "1 - (K + 1) * u \<le> (1 - K * u) * (1 - u)" by (simp add: algebra_simps)
      with Lpos show ?thesis by (intro mult_left_mono) simp_all
    qed
    also have "\<dots> = (L * (1 - K * u)) * (1 - u)" by (simp add: algebra_simps)
    also have "\<dots> \<le> s * (1 - u)" using sl uhalf by (intro mult_right_mono) simp_all
    finally have low: "L * (1 - (K + 1) * u) \<le> rnd s" using b(1) by linarith
    have "0 < 1 - (K + 1) * u" using Ku uhalf by (simp add: algebra_simps)
    with Lpos have "0 < L * (1 - (K + 1) * u)" by (rule mult_pos_pos)
    with low have "rnd s \<noteq> 0" by linarith
    with r up low show ?thesis by blast
  qed
  then obtain t' where r: "rounded rnd (Finite s) = Finite t'"
    and c: "t' \<le> (K + 1) * (4 * B)"
    and d: "t' = 0 \<or> L * (1 - (K + 1) * u) \<le> t'"
    and e: "s \<noteq> 0 \<longrightarrow> t' \<noteq> 0" by blast
  have S: "real (Suc k) = K + 1" by (simp add: K_def)
  have c': "t' \<le> real (Suc k) * 2 ^ 1002" using c by (simp only: S B4)
  have d': "t' = 0 \<or> 1 / 2 ^ 1001 * (1 - real (Suc k) * u) \<le> t'" using d by (simp only: S L_def)
  have e': "t \<noteq> 0 \<or> x \<noteq> 0 \<longrightarrow> t' \<noteq> 0" using s2 e by blast
  from q r c' d' e' show ?thesis unfolding s_def by blast
qed

text \<open>The loop on a vector and the same vector scaled by 1 or by -1: the three
  accumulators hold one rounded sum of squares, the dot product with the sign of the
  scaling.\<close>

lemma cosine_loop_scaled:
  fixes t u c :: real
  assumes n: "nearest rnd" and u: "u = 1 / 2 ^ 53" and c: "c = 1 \<or> c = - 1"
    and els: "\<forall>x \<in> set v. x = 0 \<or> (1 / 2 ^ 500 \<le> \<bar>x\<bar> \<and> \<bar>x\<bar> \<le> 2 ^ 500)"
    and k: "k + length v \<le> 2 ^ 20"
    and tu: "t \<le> real k * 2 ^ 1002"
    and tl: "t = 0 \<or> 1 / 2 ^ 1001 * (1 - real k * u) \<le> t"
  shows "\<exists>s. cosine_loop rnd v (map ((*) c) v) (Finite (c * t), Finite t, Finite t)
               = (Finite (c * s), Finite s, Finite s)
           \<and> s \<le> real (k + length v) * 2 ^ 1002
           \<and> (s = 0 \<or> 1 / 2 ^ 1001 * (1 - real (k + length v) * u) \<le> s)
           \<and> (t \<noteq> 0 \<or> (\<exists>x \<in> set v. x \<noteq> 0) \<longrightarrow> s \<noteq> 0)"
  using els k tu tl
proof (induction v arbitrary: t k)
  case Nil
  then show ?case by auto
next
  case (Cons x v)
  from Cons.prems(1) have x: "x = 0 \<or> (1 / 2 ^ 500 \<le> \<bar>x\<bar> \<and> \<bar>x\<bar> \<le> 2 ^ 500)"
    and els': "\<forall>y \<in> set v. y = 0 \<or> (1 / 2 ^ 500 \<le> \<bar>y\<bar> \<and> \<bar>y\<bar> \<le> 2 ^ 500)" by simp_all
  from Cons.prems(2) have k1: "k < 2 ^ 20" and k2: "Suc k + length v \<le> 2 ^ 20" by simp_all
  from accumulate_step [OF n u x k1 Cons.prems(3) Cons.prems(4)] obtain q t'
    where q: "rounded rnd (Finite (x * x)) = Finite q"
      and r: "rounded rnd (Finite (t + q)) = Finite t'"
      and tu': "t' \<le> real (Suc k) * 2 ^ 1002"
      and tl': "t' = 0 \<or> 1 / 2 ^ 1001 * (1 - real (Suc k) * u) \<le> t'"
      and nz: "t \<noteq> 0 \<or> x \<noteq> 0 \<longrightarrow> t' \<noteq> 0" by blast
  have cc: "c * x * (c * x) = x * x" using c by auto
  have cq: "rounded rnd (Finite (x * (c * x))) = Finite (c * q)"
  proof -
    have "x * (c * x) = c * (x * x)" by simp
    with rounded_scaled [OF n c q] show ?thesis by (simp only:)
  qed
  have cr: "rounded rnd (Finite (c * t + c * q)) = Finite (c * t')"
  proof -
    have "c * t + c * q = c * (t + q)" by (simp add: algebra_simps)
    with rounded_scaled [OF n c r] show ?thesis by (simp only:)
  qed
  have step: "cosine_loop rnd (x # v) (map ((*) c) (x # v)) (Finite (c * t), Finite t, Finite t)
       = cosine_loop rnd v (map ((*) c) v) (Finite (c * t'), Finite t', Finite t')"
    by (simp only: list.map cosine_loop.simps mul_js.simps add_js.simps cq q cr r cc)
  from Cons.IH [OF els' k2 tu' tl'] obtain s
    where s: "cosine_loop rnd v (map ((*) c) v) (Finite (c * t'), Finite t', Finite t')
                = (Finite (c * s), Finite s, Finite s)"
      and su: "s \<le> real (Suc k + length v) * 2 ^ 1002"
      and sl: "s = 0 \<or> 1 / 2 ^ 1001 * (1 - real (Suc k + length v) * u) \<le> s"
      and sn: "t' \<noteq> 0 \<or> (\<exists>y \<in> set v. y \<noteq> 0) \<longrightarrow> s \<noteq> 0" by blast
  have len: "Suc k + length v = k + length (x # v)" by simp
  have nz': "t \<noteq> 0 \<or> (\<exists>y \<in> set (x # v). y \<noteq> 0) \<longrightarrow> s \<noteq> 0" using nz sn by auto
  from su have su': "s \<le> real (k + length (x # v)) * 2 ^ 1002" by (simp only: len)
  from sl have sl': "s = 0 \<or> 1 / 2 ^ 1001 * (1 - real (k + length (x # v)) * u) \<le> s"
    by (simp only: len)
  from step s su' sl' nz' show ?case by (simp only:) blast
qed

text \<open>The quotient for a squared norm \<open>s\<close> within the range: the two rounded roots,
  their rounded product and the rounded quotient are within a few units of \<open>2^-53\<close>.\<close>

lemma quotient_close:
  fixes s c :: real
  assumes n: "nearest rnd" and c: "c = 1 \<or> c = - 1"
    and sl: "1 / 2 ^ 1002 \<le> s" and sh: "s \<le> 2 ^ 1022"
  shows "\<exists>r. rounded rnd (div_js (Finite (c * s))
                 (rounded rnd (mul_js (rounded rnd (sqrt_js (Finite s)))
                                      (rounded rnd (sqrt_js (Finite s))))))
               = Finite r \<and> \<bar>r - c\<bar> \<le> 1 / 10 ^ 10"
proof -
  define u :: real where "u = 1 / 2 ^ 53"
  define lo hi where "lo = 1 - u" and "hi = 1 + u"
  have u: "u = 1 / 2 ^ 53" by (rule u_def)
  have lo0: "0 < lo" and lo1: "1 / 2 \<le> lo" and hi1: "1 \<le> hi" and hi0: "0 < hi"
    by (simp_all add: lo_def hi_def u_def)
  have lo3: "1 / 8 \<le> lo * lo * lo" and hi2: "hi * hi \<le> 2" and hi3: "hi * hi * hi \<le> 8"
    and lo2: "1 / 4 \<le> lo * lo"
    by (simp_all add: lo_def hi_def u_def)
  have near_lo: "1 - 1 / 10 ^ 10 \<le> 1 / (hi * hi * hi) * lo"
    and near_hi: "1 / (lo * lo * lo) * hi \<le> 1 + 1 / 10 ^ 10"
    by (simp_all add: lo_def hi_def u_def)
  have "(0 :: real) < 1 / 2 ^ 1002" by simp
  with sl have spos: "0 < s" by linarith
  define w where "w = sqrt s"
  have ww: "w * w = s" using spos by (simp add: w_def)
  have wpos: "0 < w" using spos by (simp add: w_def)
  have wl: "1 / 2 ^ 501 \<le> w"
  proof -
    have e: "(501 :: nat) * 2 = 1002" by simp
    have "((2 :: real) ^ 501) ^ 2 = 2 ^ 1002" by (simp only: power_mult [symmetric] e)
    then have "((1 :: real) / 2 ^ 501) ^ 2 = 1 / 2 ^ 1002" by (simp only: power_divide power_one)
    with sl have "sqrt ((1 / 2 ^ 501) ^ 2) \<le> sqrt s" by (simp only: real_sqrt_le_iff)
    then show ?thesis by (simp add: w_def)
  qed
  have wh: "w \<le> 2 ^ 511"
  proof -
    have "((2 :: real) ^ 511) ^ 2 = 2 ^ 1022" by simp
    with sh have "sqrt s \<le> sqrt ((2 ^ 511) ^ 2)" by (simp only: real_sqrt_le_iff)
    then show ?thesis by (simp add: w_def)
  qed
  have wn: "1 / 2 ^ 1022 \<le> w" "w \<le> 2 ^ 1023"
  proof -
    have "(1 :: real) / 2 ^ 1022 \<le> 1 / 2 ^ 501" "(2 :: real) ^ 511 \<le> 2 ^ 1023" by simp_all
    with wl wh show "1 / 2 ^ 1022 \<le> w" "w \<le> 2 ^ 1023" by linarith+
  qed
  define a where "a = rnd w"
  have r1: "rounded rnd (sqrt_js (Finite s)) = Finite a"
  proof -
    have "sqrt_js (Finite s) = Finite w" using spos by (simp add: w_def)
    moreover have "rounded rnd (Finite w) = Finite (rnd w)"
      using wn by (intro rounded_normal) (simp_all only: abs_of_pos [OF wpos])
    ultimately show ?thesis by (simp only: a_def)
  qed
  from nearest_bounds [OF n u wn]
  have al: "w * lo \<le> a" and ah: "a \<le> w * hi" by (simp_all only: a_def lo_def hi_def)
  have wlo: "0 < w * lo" using wpos lo0 by (rule mult_pos_pos)
  with al have apos: "0 < a" by linarith
  have pl: "s * (lo * lo) \<le> a * a"
  proof -
    have "w * lo * (w * lo) \<le> a * a" using al wlo by (intro mult_mono) simp_all
    moreover have "w * lo * (w * lo) = w * w * (lo * lo)" by (simp only: ac_simps)
    ultimately show ?thesis by (simp only: ww)
  qed
  have ph: "a * a \<le> s * (hi * hi)"
  proof -
    have "a * a \<le> w * hi * (w * hi)" using ah apos wpos hi0 by (intro mult_mono) simp_all
    moreover have "w * hi * (w * hi) = w * w * (hi * hi)" by (simp only: ac_simps)
    ultimately show ?thesis by (simp only: ww)
  qed
  have aapos: "0 < a * a" using apos by simp
  have an: "1 / 2 ^ 1022 \<le> a * a" "a * a \<le> 2 ^ 1023"
  proof -
    have "1 / 2 ^ 1002 * (1 / 4) \<le> s * (lo * lo)" using sl lo2 by (intro mult_mono) simp_all
    moreover have "(1 :: real) / 2 ^ 1022 \<le> 1 / 2 ^ 1002 * (1 / 4)" by simp
    ultimately show "1 / 2 ^ 1022 \<le> a * a" using pl by linarith
    have "s * (hi * hi) \<le> 2 ^ 1022 * 2" using sh hi2 spos by (intro mult_mono) simp_all
    moreover have "(2 :: real) ^ 1022 * 2 \<le> 2 ^ 1023" by simp
    ultimately show "a * a \<le> 2 ^ 1023" using ph by linarith
  qed
  define p where "p = rnd (a * a)"
  have r2: "rounded rnd (mul_js (Finite a) (Finite a)) = Finite p"
  proof -
    have "rounded rnd (Finite (a * a)) = Finite (rnd (a * a))"
      using an by (intro rounded_normal) (simp_all only: abs_of_pos [OF aapos])
    then show ?thesis by (simp only: mul_js.simps p_def)
  qed
  from nearest_bounds [OF n u an]
  have pl': "a * a * lo \<le> p" and ph': "p \<le> a * a * hi" by (simp_all only: p_def lo_def hi_def)
  have pl3: "s * (lo * lo * lo) \<le> p"
  proof -
    have "s * (lo * lo) * lo \<le> a * a * lo" using pl lo0 by (intro mult_right_mono) simp_all
    with pl' have "s * (lo * lo) * lo \<le> p" by linarith
    then show ?thesis by (simp only: mult.assoc)
  qed
  have ph3: "p \<le> s * (hi * hi * hi)"
  proof -
    have "a * a * hi \<le> s * (hi * hi) * hi" using ph hi0 by (intro mult_right_mono) simp_all
    with ph' have "p \<le> s * (hi * hi) * hi" by linarith
    then show ?thesis by (simp only: mult.assoc)
  qed
  have lo3pos: "0 < lo * lo * lo" using lo0 by simp
  have hi3pos: "0 < hi * hi * hi" using hi0 by simp
  have slo: "0 < s * (lo * lo * lo)" using spos lo3pos by (rule mult_pos_pos)
  with pl3 have ppos: "0 < p" by linarith
  define y where "y = s / p"
  have yl: "1 / (hi * hi * hi) \<le> y"
  proof -
    have "s / (s * (hi * hi * hi)) \<le> s / p" using spos ppos ph3 by (intro frac_le) simp_all
    moreover have "s / (s * (hi * hi * hi)) = 1 / (hi * hi * hi)" using spos by simp
    ultimately show ?thesis by (simp only: y_def)
  qed
  have yh: "y \<le> 1 / (lo * lo * lo)"
  proof -
    have "s / p \<le> s / (s * (lo * lo * lo))" using spos slo pl3 by (intro frac_le) simp_all
    moreover have "s / (s * (lo * lo * lo)) = 1 / (lo * lo * lo)" using spos by simp
    ultimately show ?thesis by (simp only: y_def)
  qed
  have ypos: "0 < y" using spos ppos by (simp add: y_def)
  have yn: "1 / 2 ^ 1022 \<le> y" "y \<le> 2 ^ 1023"
  proof -
    have "1 / 8 \<le> 1 / (hi * hi * hi)" using hi3 hi3pos by (intro frac_le) simp_all
    moreover have "(1 :: real) / 2 ^ 1022 \<le> 1 / 8" by simp
    ultimately show "1 / 2 ^ 1022 \<le> y" using yl by linarith
    have "1 / (lo * lo * lo) \<le> 1 / (1 / 8)" using lo3 by (intro frac_le) simp_all
    moreover have "1 / (1 / 8) \<le> (2 :: real) ^ 1023" by simp
    ultimately show "y \<le> 2 ^ 1023" using yh by linarith
  qed
  define z where "z = rnd y"
  have r3: "rounded rnd (Finite (c * y)) = Finite (c * z)"
  proof -
    have "rounded rnd (Finite y) = Finite (rnd y)"
      using yn by (intro rounded_normal) (simp_all only: abs_of_pos [OF ypos])
    then show ?thesis unfolding z_def by (rule rounded_scaled [OF n c])
  qed
  from nearest_bounds [OF n u yn]
  have zl: "y * lo \<le> z" and zh: "z \<le> y * hi" by (simp_all only: z_def lo_def hi_def)
  have "1 / (hi * hi * hi) * lo \<le> y * lo" using yl lo0 by (intro mult_right_mono) simp_all
  with zl near_lo have z1: "1 - 1 / 10 ^ 10 \<le> z" by linarith
  have "y * hi \<le> 1 / (lo * lo * lo) * hi" using yh hi0 by (intro mult_right_mono) simp_all
  with zh near_hi have z2: "z \<le> 1 + 1 / 10 ^ 10" by linarith
  have close: "\<bar>c * z - c\<bar> \<le> 1 / 10 ^ 10"
  proof -
    have "c * z - c = c * (z - 1)" by (simp add: algebra_simps)
    moreover have "\<bar>c\<bar> = 1" using c by auto
    ultimately have "\<bar>c * z - c\<bar> = \<bar>z - 1\<bar>" by (simp add: abs_mult)
    moreover from z1 z2 have "\<bar>z - 1\<bar> \<le> 1 / 10 ^ 10" by linarith
    ultimately show ?thesis by (simp only:)
  qed
  have "div_js (Finite (c * s)) (Finite p) = Finite (c * y)"
    using ppos by (simp add: y_def)
  with r1 r2 r3 have "rounded rnd (div_js (Finite (c * s))
                 (rounded rnd (mul_js (rounded rnd (sqrt_js (Finite s)))
                                      (rounded rnd (sqrt_js (Finite s))))))
               = Finite (c * z)" by (simp only:)
  with close show ?thesis by blast
qed

lemma cosineSimilarity_scaled:
  fixes c :: real
  assumes n: "nearest rnd" and c: "c = 1 \<or> c = - 1"
    and nz: "\<exists>x \<in> set v. x \<noteq> 0"
    and els: "\<forall>x \<in> set v. x = 0 \<or> (1 / 2 ^ 500 \<le> \<bar>x\<bar> \<and> \<bar>x\<bar> \<le> 2 ^ 500)"
    and len: "length v \<le> 2 ^ 20"
  shows "\<exists>r. cosineSimilarity rnd v (map ((*) c) v) = Inr (Finite r) \<and> \<bar>r - c\<bar> \<le> 1 / 10 ^ 10"
proof -
  define u :: real where "u = 1 / 2 ^ 53"
  define m where "m = real (length v)"
  have u: "u = 1 / 2 ^ 53" by (rule u_def)
  have k: "0 + length v \<le> 2 ^ 20" using len by simp
  have tu: "(0 :: real) \<le> real 0 * 2 ^ 1002" by simp
  have tl: "(0 :: real) = 0 \<or> 1 / 2 ^ 1001 * (1 - real 0 * u) \<le> 0" by simp
  from cosine_loop_scaled [OF n u c els k tu tl] obtain s
    where loop: "cosine_loop rnd v (map ((*) c) v) (Finite (c * 0), Finite 0, Finite 0)
                   = (Finite (c * s), Finite s, Finite s)"
      and su: "s \<le> real (0 + length v) * 2 ^ 1002"
      and sl: "s = 0 \<or> 1 / 2 ^ 1001 * (1 - real (0 + length v) * u) \<le> s"
      and sn: "(0 :: real) \<noteq> 0 \<or> (\<exists>x \<in> set v. x \<noteq> 0) \<longrightarrow> s \<noteq> 0" by blast
  from sn nz have s0: "s \<noteq> 0" by blast
  have "real (length v) \<le> real (2 ^ 20)" using len by (simp only: of_nat_le_iff)
  then have m20: "m \<le> 2 ^ 20" by (simp add: m_def)
  have m0: "0 \<le> m" by (simp add: m_def)
  have upos: "0 < u" by (simp add: u)
  have mu: "m * u \<le> 1 / 2"
  proof -
    have "m * u \<le> 2 ^ 20 * u" using m20 upos by (intro mult_right_mono) simp_all
    also have "\<dots> \<le> 1 / 2" by (simp add: u)
    finally show ?thesis .
  qed
  have lower: "1 / 2 ^ 1002 \<le> s"
  proof -
    from sl s0 have "1 / 2 ^ 1001 * (1 - m * u) \<le> s" by (simp add: m_def)
    moreover have "1 / 2 ^ 1001 * (1 / 2) \<le> 1 / 2 ^ 1001 * (1 - m * u)"
      using mu by (intro mult_left_mono) simp_all
    moreover have "(1 :: real) / 2 ^ 1002 = 1 / 2 ^ 1001 * (1 / 2)" by simp
    ultimately show ?thesis by linarith
  qed
  have upper: "s \<le> 2 ^ 1022"
  proof -
    from su have "s \<le> m * 2 ^ 1002" by (simp add: m_def)
    moreover have "m * 2 ^ 1002 \<le> 2 ^ 20 * 2 ^ 1002" using m20 by (intro mult_right_mono) simp_all
    moreover have "(2 :: real) ^ 20 * 2 ^ 1002 = 2 ^ 1022" by simp
    ultimately show ?thesis by linarith
  qed
  from quotient_close [OF n c lower upper] obtain r
    where r: "rounded rnd (div_js (Finite (c * s))
                 (rounded rnd (mul_js (rounded rnd (sqrt_js (Finite s)))
                                      (rounded rnd (sqrt_js (Finite s))))))
               = Finite r"
      and close: "\<bar>r - c\<bar> \<le> 1 / 10 ^ 10" by blast
  from loop have loop0: "cosine_loop rnd v (map ((*) c) v) (Finite 0, Finite 0, Finite 0)
                   = (Finite (c * s), Finite s, Finite s)" by simp
  have "cosineSimilarity rnd v (map ((*) c) v) = Inr (Finite r)"
    by (simp only: cosineSimilarity_def length_map loop0 prod.case r simp_thms if_False)
  with close show ?thesis by blast
qed

lemma cosine_loop_zero:
  assumes n: "nearest rnd" and z: "\<forall>x \<in> set v. x = 0"
  shows "cosine_loop rnd v v (Finite 0, Finite 0, Finite 0) = (Finite 0, Finite 0, Finite 0)"
  using z by (induction v) (simp_all add: rounded_zero [OF n])

lemma rounded_NaN: "rounded rnd NaN = NaN"
  by (simp add: rounded_def)

lemma map_uminus_zero: "\<forall>x \<in> set v. x = (0 :: real) \<Longrightarrow> map uminus v = v"
  by (induction v) simp_all

text \<open>
  Claim C10, amended. For every vector \<open>v\<close> of at most \<open>2^20\<close> components, one of them
  not zero and each of them zero or of a magnitude between \<open>2^-500\<close> and \<open>2^500\<close> (so that
  neither a square nor the squared norm leaves the range of doubles),
  \<open>cosineSimilarity(v, v)\<close> is approximately 1 and \<open>cosineSimilarity(v, -v)\<close> is
  approximately -1, within \<open>10^-10\<close>, whatever the rounding to the nearest double does
  within its error bound; for every vector of zeros (the empty vector too) both are
  NaN; and for every two vectors of different lengths \<open>cosineSimilarity\<close> throws the
  dimension error.
\<close>

theorem cosineSimilarity_in_range:
  "(nearest rnd
      \<and> (\<exists>x \<in> set v. x \<noteq> 0)
      \<and> (\<forall>x \<in> set v. x = 0 \<or> (1 / 2 ^ 500 \<le> \<bar>x\<bar> \<and> \<bar>x\<bar> \<le> 2 ^ 500))
      \<and> length v \<le> 2 ^ 20
     \<longrightarrow> approximately (cosineSimilarity rnd v v) 1
         \<and> approximately (cosineSimilarity rnd v (map uminus v)) (- 1))
   \<and> (nearest rnd \<and> (\<forall>x \<in> set v. x = 0)
     \<longrightarrow> cosineSimilarity rnd v v = Inr NaN
         \<and> cosineSimilarity rnd v (map uminus v) = Inr NaN)
   \<and> (length a \<noteq> length b \<longrightarrow> cosineSimilarity rnd a b = Inl DimensionMismatch)"
proof (intro conjI impI)
  assume h: "nearest rnd
      \<and> (\<exists>x \<in> set v. x \<noteq> 0)
      \<and> (\<forall>x \<in> set v. x = 0 \<or> (1 / 2 ^ 500 \<le> \<bar>x\<bar> \<and> \<bar>x\<bar> \<le> 2 ^ 500))
      \<and> length v \<le> 2 ^ 20"
  then have n: "nearest rnd" and nz: "\<exists>x \<in> set v. x \<noteq> 0"
    and els: "\<forall>x \<in> set v. x = 0 \<or> (1 / 2 ^ 500 \<le> \<bar>x\<bar> \<and> \<bar>x\<bar> \<le> 2 ^ 500)"
    and len: "length v \<le> 2 ^ 20" by blast+
  have same: "map ((*) (1 :: real)) v = v" by (induction v) simp_all
  have opposite: "map ((*) (- 1 :: real)) v = map uminus v" by (induction v) simp_all
  from cosineSimilarity_scaled [OF n _ nz els len, of 1] obtain r
    where "cosineSimilarity rnd v v = Inr (Finite r)" and "\<bar>r - 1\<bar> \<le> 1 / 10 ^ 10"
    by (auto simp: same)
  then show "approximately (cosineSimilarity rnd v v) 1" by (simp add: approximately_def)
  from cosineSimilarity_scaled [OF n _ nz els len, of "- 1"] obtain r'
    where "cosineSimilarity rnd v (map uminus v) = Inr (Finite r')"
      and "\<bar>r' - (- 1)\<bar> \<le> 1 / 10 ^ 10"
    by (auto simp: opposite)
  then show "approximately (cosineSimilarity rnd v (map uminus v)) (- 1)"
    by (simp add: approximately_def)
next
  assume "nearest rnd \<and> (\<forall>x \<in> set v. x = 0)"
  then have n: "nearest rnd" and z: "\<forall>x \<in> set v. x = 0" by blast+
  from cosine_loop_zero [OF n z]
  show "cosineSimilarity rnd v v = Inr NaN"
    by (simp add: cosineSimilarity_def rounded_zero [OF n] rounded_NaN)
  with map_uminus_zero [OF z]
  show "cosineSimilarity rnd v (map uminus v) = Inr NaN" by simp
next
  assume "length a \<noteq> length b"
  then show "cosineSimilarity rnd a b = Inl DimensionMismatch" by (simp add: cosineSimilarity_def)
qed

theorem cosineSimilarity_in_range_witness:
  "approximately
     (cosineSimilarity id [1 / 10, 2 / 10, 3 / 10, 4 / 10, 5 / 10]
        [1 / 10, 2 / 10, 3 / 10, 4 / 10, 5 / 10]) 1
   \<and> approximately (cosineSimilarity id [1, 0, 0] [- 1, 0, 0]) (- 1)
   \<and> cosineSimilarity id [0, 0] [0, 0] = Inr NaN
   \<and> cosineSimilarity id [1 / 10, 2 / 10, 3 / 10] [1 / 10, 2 / 10] = Inl DimensionMismatch"
proof -
  let ?v = "[1 / 10, 2 / 10, 3 / 10, 4 / 10, 5 / 10] :: real list"
  let ?w = "[1, 0, 0] :: real list"
  have n: "nearest id" by (simp add: nearest_def)
  have small: "(1 :: real) / 2 ^ 500 \<le> 1 / 10" by simp
  have large: "(1 :: real) \<le> 2 ^ 500" by simp
  have hv: "nearest id \<and> (\<exists>x \<in> set ?v. x \<noteq> 0)
      \<and> (\<forall>x \<in> set ?v. x = 0 \<or> (1 / 2 ^ 500 \<le> \<bar>x\<bar> \<and> \<bar>x\<bar> \<le> 2 ^ 500))
      \<and> length ?v \<le> 2 ^ 20"
    using n small large by simp
  have hw: "nearest id \<and> (\<exists>x \<in> set ?w. x \<noteq> 0)
      \<and> (\<forall>x \<in> set ?w. x = 0 \<or> (1 / 2 ^ 500 \<le> \<bar>x\<bar> \<and> \<bar>x\<bar> \<le> 2 ^ 500))
      \<and> length ?w \<le> 2 ^ 20"
    using n large by simp
  have hz: "nearest id \<and> (\<forall>x \<in> set [0, 0 :: real]. x = 0)" using n by simp
  from cosineSimilarity_in_range [THEN conjunct1, THEN mp, OF hv]
  have a: "approximately (cosineSimilarity id ?v ?v) 1" by blast
  from cosineSimilarity_in_range [THEN conjunct1, THEN mp, OF hw]
  have b: "approximately (cosineSimilarity id ?w [- 1, 0, 0]) (- 1)" by simp
  from cosineSimilarity_in_range [THEN conjunct2, THEN conjunct1, THEN mp, OF hz]
  have c: "cosineSimilarity id [0, 0] [0, 0] = Inr NaN" by blast
  from cosineSimilarity_in_range
         [THEN conjunct2, THEN conjunct2, THEN mp,
          of "[1 / 10, 2 / 10, 3 / 10]" "[1 / 10, 2 / 10]" id]
  have d: "cosineSimilarity id [1 / 10, 2 / 10, 3 / 10] [1 / 10, 2 / 10] = Inl DimensionMismatch"
    by simp
  from a b c d show ?thesis by blast
qed

text \<open>
  Claim C10 as stated fails on a vector of zeros and on the empty vector, where both
  norms are zero and the quotient 0 / 0 is NaN, and on vectors whose squares leave the
  range of doubles: the square of \<open>2^600\<close> is \<open>Infinity\<close> and the quotient of two
  infinities is NaN, the square of \<open>2^-600\<close> is 0 and the quotient is again 0 / 0. No
  result in these runs is rounded other than zero, so the rounding is taken exact.
\<close>

theorem cosineSimilarity_zero_counterexample:
  "cosineSimilarity id [0, 0, 0] [0, 0, 0] = Inr NaN
   \<and> \<not> approximately (cosineSimilarity id [0, 0, 0] [0, 0, 0]) 1
   \<and> cosineSimilarity id [0, 0, 0] (map uminus [0, 0, 0]) = Inr NaN
   \<and> cosineSimilarity id [] [] = Inr NaN
   \<and> cosineSimilarity id [2 ^ 600] [2 ^ 600] = Inr NaN
   \<and> cosineSimilarity id [1 / 2 ^ 600] [1 / 2 ^ 600] = Inr NaN"
  by (simp add: cosineSimilarity_def rounded_def double_def signed_infinity_def
        approximately_def)
section \<open>The pattern library is not idempotent\<close>

lemma includes_str_iff: "includes_str p s \<longleftrightarrow> (\<exists>a b. p = a @ s @ b)"
proof (induction p)
  case Nil
  show ?case by auto
next
  case (Cons c cs)
  show ?case
  proof
    assume "includes_str (c # cs) s"
    then consider "prefix s (c # cs)" | "includes_str cs s" by auto
    then show "\<exists>a b. c # cs = a @ s @ b"
    proof cases
      case 1
      then obtain b where "c # cs = s @ b" by (auto simp: prefix_def)
      then have "c # cs = [] @ s @ b" by simp
      then show ?thesis by blast
    next
      case 2
      with Cons.IH obtain a b where "cs = a @ s @ b" by blast
      then have "c # cs = (c # a) @ s @ b" by simp
      then show ?thesis by blast
    qed
  next
    assume "\<exists>a b. c # cs = a @ s @ b"
    then obtain a b where ab: "c # cs = a @ s @ b" by blast
    show "includes_str (c # cs) s"
    proof (cases a)
      case Nil
      with ab have "prefix s (c # cs)" by (simp add: prefix_def)
      then show ?thesis by simp
    next
      case (Cons x a')
      with ab have "cs = a' @ s @ b" by simp
      with Cons.IH have "includes_str cs s" by blast
      then show ?thesis by simp
    qed
  qed
qed

lemma includes_str_appendI1: "includes_str p s \<Longrightarrow> includes_str (p @ q) s"
proof -
  assume "includes_str p s"
  then obtain a b where "p = a @ s @ b" by (auto simp: includes_str_iff)
  then have "p @ q = a @ s @ (b @ q)" by simp
  then show ?thesis unfolding includes_str_iff by blast
qed

lemma includes_str_appendI2: "includes_str q s \<Longrightarrow> includes_str (p @ q) s"
proof -
  assume "includes_str q s"
  then obtain a b where "q = a @ s @ b" by (auto simp: includes_str_iff)
  then have "p @ q = (p @ a) @ s @ b" by simp
  then show ?thesis unfolding includes_str_iff by blast
qed

lemma toLowerCase_append: "toLowerCase (p @ q) = toLowerCase p @ toLowerCase q"
  by (simp add: toLowerCase_def)

lemmas pattern_defs = add_structure_def add_chain_of_thought_def add_constraints_def
  add_output_format_def add_context_request_def

lemmas text_defs = structure_text_def chain_of_thought_text_def constraints_text_def
  output_format_text_def context_request_text_def

lemma lower_includes_appendI1:
  "includes_str (toLowerCase t) s \<Longrightarrow> includes_str (toLowerCase (t @ q)) s"
  by (simp add: toLowerCase_append includes_str_appendI1)

lemma lower_includes_appendI2:
  "includes_str (toLowerCase q) s \<Longrightarrow> includes_str (toLowerCase (t @ q)) s"
  by (simp add: toLowerCase_append includes_str_appendI2)

lemma fst_apply_pattern: "fst (apply_pattern pat acc) = rewrite pat (fst acc)"
  by (cases acc) (simp add: apply_pattern_def rewrite_def)

lemma snd_apply_pattern:
  "snd (apply_pattern pat acc)
     = (if check pat (fst acc) then snd acc @ [name pat] else snd acc)"
  by (cases acc) (simp add: apply_pattern_def)

lemma apply_pattern_eq:
  "apply_pattern pat (t, a) = (rewrite pat t, if check pat t then a @ [name pat] else a)"
  by (simp add: apply_pattern_def rewrite_def)

text \<open>Each of the four later patterns is switched off by its own text and stays off
  when text is appended.\<close>

lemma chain_of_thought_stable:
  "\<not> check add_chain_of_thought t \<Longrightarrow> \<not> check add_chain_of_thought (t @ q)"
  by (auto simp: add_chain_of_thought_def intro: lower_includes_appendI1)

lemma constraints_stable:
  "\<not> check add_constraints t \<Longrightarrow> \<not> check add_constraints (t @ q)"
  by (auto simp: add_constraints_def intro: includes_str_appendI1)

lemma output_format_stable:
  "\<not> check add_output_format t \<Longrightarrow> \<not> check add_output_format (t @ q)"
  by (auto simp: add_output_format_def intro: lower_includes_appendI1)

lemma context_request_stable:
  "\<not> check add_context_request t \<Longrightarrow> \<not> check add_context_request (t @ q)"
  by (auto simp: add_context_request_def intro: lower_includes_appendI1)

lemma structure_stable:
  "\<not> check add_structure t \<Longrightarrow> \<not> check add_structure (t @ q)"
  by (auto simp: add_structure_def intro: includes_str_appendI1)

lemma chain_of_thought_text_lower:
  "includes_str (toLowerCase chain_of_thought_text) ''step by step''"
  by (simp add: chain_of_thought_text_def toLowerCase_def lower_char_def)

lemma chain_of_thought_text_step: "includes_str chain_of_thought_text ''step''"
  by (simp add: chain_of_thought_text_def)

lemma constraints_text_Requirements: "includes_str constraints_text ''Requirements''"
  by (simp add: constraints_text_def)

lemma output_format_text_lower: "includes_str (toLowerCase output_format_text) ''format''"
  by (simp add: output_format_text_def toLowerCase_def lower_char_def)

lemma context_request_text_lower: "includes_str (toLowerCase context_request_text) ''context''"
  by (simp add: context_request_text_def toLowerCase_def lower_char_def)

lemma chain_of_thought_settles: "\<not> check add_chain_of_thought (rewrite add_chain_of_thought t)"
  by (simp add: rewrite_def)
     (simp add: add_chain_of_thought_def lower_includes_appendI2 chain_of_thought_text_lower)

lemma constraints_settles: "\<not> check add_constraints (rewrite add_constraints t)"
  by (simp add: rewrite_def)
     (simp add: add_constraints_def includes_str_appendI2 constraints_text_Requirements)

lemma output_format_settles: "\<not> check add_output_format (rewrite add_output_format t)"
  by (simp add: rewrite_def)
     (simp add: add_output_format_def lower_includes_appendI2 output_format_text_lower)

lemma context_request_settles: "\<not> check add_context_request (rewrite add_context_request t)"
  by (simp add: rewrite_def)
     (simp add: add_context_request_def lower_includes_appendI2 context_request_text_lower)

lemma rewrite_appends:
  "pat \<in> set IMPROVEMENT_PATTERNS \<Longrightarrow> \<exists>q. rewrite pat t = t @ q"
  by (auto simp: IMPROVEMENT_PATTERNS_def rewrite_def pattern_defs)


lemma in_patterns:
  "add_structure \<in> set IMPROVEMENT_PATTERNS" "add_chain_of_thought \<in> set IMPROVEMENT_PATTERNS"
  "add_constraints \<in> set IMPROVEMENT_PATTERNS" "add_output_format \<in> set IMPROVEMENT_PATTERNS"
  "add_context_request \<in> set IMPROVEMENT_PATTERNS"
  by (simp_all add: IMPROVEMENT_PATTERNS_def)

lemma settled_append: "settled t \<Longrightarrow> settled (t @ q)"
  by (simp add: settled_def chain_of_thought_stable constraints_stable output_format_stable
        context_request_stable)

lemma applyPatterns_rewrite:
  "fst (applyPatterns p) =
     rewrite add_context_request (rewrite add_output_format (rewrite add_constraints
       (rewrite add_chain_of_thought (rewrite add_structure p))))"
  by (simp add: applyPatterns_def IMPROVEMENT_PATTERNS_def apply_pattern_eq)

lemma first_pass_settled: "settled (fst (applyPatterns p))"
proof -
  define t1 where "t1 = rewrite add_structure p"
  define t2 where "t2 = rewrite add_chain_of_thought t1"
  define t3 where "t3 = rewrite add_constraints t2"
  define t4 where "t4 = rewrite add_output_format t3"
  define r where "r = rewrite add_context_request t4"
  have r: "fst (applyPatterns p) = r"
    by (simp add: applyPatterns_rewrite t1_def t2_def t3_def t4_def r_def)
  obtain q3 where q3: "t3 = t2 @ q3"
    unfolding t3_def using rewrite_appends [OF in_patterns(3)] by blast
  obtain q4 where q4: "t4 = t3 @ q4"
    unfolding t4_def using rewrite_appends [OF in_patterns(4)] by blast
  obtain q5 where q5: "r = t4 @ q5"
    unfolding r_def using rewrite_appends [OF in_patterns(5)] by blast
  have "\<not> check add_chain_of_thought t2"
    unfolding t2_def by (rule chain_of_thought_settles)
  then have a: "\<not> check add_chain_of_thought r"
    unfolding q5 q4 q3 by (intro chain_of_thought_stable)
  have "\<not> check add_constraints t3"
    unfolding t3_def by (rule constraints_settles)
  then have b: "\<not> check add_constraints r"
    unfolding q5 q4 by (intro constraints_stable)
  have "\<not> check add_output_format t4"
    unfolding t4_def by (rule output_format_settles)
  then have c: "\<not> check add_output_format r"
    unfolding q5 by (intro output_format_stable)
  have d: "\<not> check add_context_request r"
    unfolding r_def by (rule context_request_settles)
  from a b c d show ?thesis by (simp add: r settled_def)
qed

lemma rewrite_unchanged: "\<not> check pat t \<Longrightarrow> rewrite pat t = t"
  by (simp add: rewrite_def)

lemma pattern_names:
  "name add_structure = ''add_structure''"
  "name add_chain_of_thought = ''add_chain_of_thought''"
  "name add_constraints = ''add_constraints''"
  "name add_output_format = ''add_output_format''"
  "name add_context_request = ''add_context_request''"
  by (simp_all add: pattern_defs)

lemma settled_second_pass:
  assumes "settled t"
  shows "applyPatterns t =
           (if check add_structure t then (t @ structure_text, [''add_structure'']) else (t, []))"
proof (cases "check add_structure t")
  case True
  from settled_append [OF assms, of structure_text]
  have s: "settled (t @ structure_text)" .
  have "apply_fn add_structure t = t @ structure_text"
    by (simp add: add_structure_def)
  with True have r: "rewrite add_structure t = t @ structure_text"
    by (simp add: rewrite_def)
  from s True show ?thesis
    by (simp add: applyPatterns_def IMPROVEMENT_PATTERNS_def apply_pattern_eq r pattern_names
          settled_def rewrite_unchanged)
next
  case False
  with assms show ?thesis
    by (simp add: applyPatterns_def IMPROVEMENT_PATTERNS_def apply_pattern_eq settled_def
          rewrite_unchanged)
qed

lemma applied_names:
  "snd (applyPatterns p) =
     (if check add_structure p then [''add_structure''] else [])
     @ (if check add_chain_of_thought (rewrite add_structure p)
        then [''add_chain_of_thought''] else [])
     @ (if check add_constraints (rewrite add_chain_of_thought (rewrite add_structure p))
        then [''add_constraints''] else [])
     @ (if check add_output_format (rewrite add_constraints (rewrite add_chain_of_thought
             (rewrite add_structure p)))
        then [''add_output_format''] else [])
     @ (if check add_context_request (rewrite add_output_format (rewrite add_constraints
             (rewrite add_chain_of_thought (rewrite add_structure p))))
        then [''add_context_request''] else [])"
  by (simp add: applyPatterns_def IMPROVEMENT_PATTERNS_def apply_pattern_eq pattern_names)

text \<open>
  Claim C8, amended. On the text that \<open>applyPatterns\<close> produced, a second application
  can fire \<open>add_structure\<close> only, and fires it exactly when that text contains none of
  \<open>1.\<close>, \<open>step\<close> and \<open>first\<close>. The second application changes nothing (same text, no
  pattern name) whenever the first one applied \<open>add_chain_of_thought\<close> or did not apply
  \<open>add_structure\<close>; and \<open>applyPatterns\<close> changes nothing on a text on which no predicate
  holds.
\<close>

theorem applyPatterns_second_pass:
  "applyPatterns (fst (applyPatterns p)) =
     (if check add_structure (fst (applyPatterns p))
      then (fst (applyPatterns p) @ structure_text, [''add_structure''])
      else (fst (applyPatterns p), []))
   \<and> (''add_chain_of_thought'' \<in> set (snd (applyPatterns p)) \<or> \<not> check add_structure p
        \<longrightarrow> applyPatterns (fst (applyPatterns p)) = (fst (applyPatterns p), []))
   \<and> ((\<forall>pat \<in> set IMPROVEMENT_PATTERNS. \<not> check pat p) \<longrightarrow> applyPatterns p = (p, []))"
proof (intro conjI impI)
  let ?r = "fst (applyPatterns p)"
  show second: "applyPatterns ?r =
     (if check add_structure ?r then (?r @ structure_text, [''add_structure'']) else (?r, []))"
    by (rule settled_second_pass [OF first_pass_settled])
  assume h: "''add_chain_of_thought'' \<in> set (snd (applyPatterns p)) \<or> \<not> check add_structure p"
  define t1 where "t1 = rewrite add_structure p"
  define t2 where "t2 = rewrite add_chain_of_thought t1"
  have "\<exists>q. ?r = t2 @ q"
  proof -
    obtain q3 where "rewrite add_constraints t2 = t2 @ q3"
      using rewrite_appends [OF in_patterns(3)] by blast
    moreover obtain q4 where "rewrite add_output_format (t2 @ q3) = (t2 @ q3) @ q4"
      using rewrite_appends [OF in_patterns(4)] by blast
    moreover obtain q5 where "rewrite add_context_request ((t2 @ q3) @ q4) = ((t2 @ q3) @ q4) @ q5"
      using rewrite_appends [OF in_patterns(5)] by blast
    ultimately have "?r = t2 @ (q3 @ q4 @ q5)"
      by (simp add: applyPatterns_rewrite t1_def t2_def)
    then show ?thesis ..
  qed
  then obtain q where q: "?r = t2 @ q" ..
  have "\<not> check add_structure t2"
  proof (cases "check add_structure p")
    case False
    then have "t1 = p" by (simp add: t1_def rewrite_def)
    obtain q2 where "t2 = t1 @ q2"
      unfolding t2_def using rewrite_appends [OF in_patterns(2)] by blast
    with False \<open>t1 = p\<close> show ?thesis by (simp add: structure_stable)
  next
    case True
    with h have "''add_chain_of_thought'' \<in> set (snd (applyPatterns p))" by simp
    then have "check add_chain_of_thought t1"
      by (simp add: applied_names t1_def split: if_splits)
    moreover have "apply_fn add_chain_of_thought t1 = t1 @ chain_of_thought_text"
      by (simp add: add_chain_of_thought_def)
    ultimately have "t2 = t1 @ chain_of_thought_text"
      by (simp add: t2_def rewrite_def)
    then have "includes_str t2 ''step''"
      by (simp add: includes_str_appendI2 chain_of_thought_text_step)
    then show ?thesis by (simp add: add_structure_def)
  qed
  then have "\<not> check add_structure ?r"
    unfolding q by (rule structure_stable)
  with second show "applyPatterns ?r = (?r, [])" by simp
next
  assume "\<forall>pat \<in> set IMPROVEMENT_PATTERNS. \<not> check pat p"
  then show "applyPatterns p = (p, [])"
    by (simp add: applyPatterns_def IMPROVEMENT_PATTERNS_def apply_pattern_eq rewrite_unchanged)
qed

lemma lower_char_simps:
  "lower_char (CHR ''a'') = CHR ''a''"
  "lower_char (CHR ''b'') = CHR ''b''"
  "lower_char (CHR ''c'') = CHR ''c''"
  "lower_char (CHR ''d'') = CHR ''d''"
  "lower_char (CHR ''e'') = CHR ''e''"
  "lower_char (CHR ''f'') = CHR ''f''"
  "lower_char (CHR ''g'') = CHR ''g''"
  "lower_char (CHR ''h'') = CHR ''h''"
  "lower_char (CHR ''i'') = CHR ''i''"
  "lower_char (CHR ''j'') = CHR ''j''"
  "lower_char (CHR ''k'') = CHR ''k''"
  "lower_char (CHR ''l'') = CHR ''l''"
  "lower_char (CHR ''m'') = CHR ''m''"
  "lower_char (CHR ''n'') = CHR ''n''"
  "lower_char (CHR ''o'') = CHR ''o''"
  "lower_char (CHR ''p'') = CHR ''p''"
  "lower_char (CHR ''q'') = CHR ''q''"
  "lower_char (CHR ''r'') = CHR ''r''"
  "lower_char (CHR ''s'') = CHR ''s''"
  "lower_char (CHR ''t'') = CHR ''t''"
  "lower_char (CHR ''u'') = CHR ''u''"
  "lower_char (CHR ''v'') = CHR ''v''"
  "lower_char (CHR ''w'') = CHR ''w''"
  "lower_char (CHR ''x'') = CHR ''x''"
  "lower_char (CHR ''y'') = CHR ''y''"
  "lower_char (CHR ''z'') = CHR ''z''"
  "lower_char (CHR ''A'') = CHR ''a''"
  "lower_char (CHR ''B'') = CHR ''b''"
  "lower_char (CHR ''C'') = CHR ''c''"
  "lower_char (CHR ''D'') = CHR ''d''"
  "lower_char (CHR ''E'') = CHR ''e''"
  "lower_char (CHR ''F'') = CHR ''f''"
  "lower_char (CHR ''G'') = CHR ''g''"
  "lower_char (CHR ''H'') = CHR ''h''"
  "lower_char (CHR ''I'') = CHR ''i''"
  "lower_char (CHR ''J'') = CHR ''j''"
  "lower_char (CHR ''K'') = CHR ''k''"
  "lower_char (CHR ''L'') = CHR ''l''"
  "lower_char (CHR ''M'') = CHR ''m''"
  "lower_char (CHR ''N'') = CHR ''n''"
  "lower_char (CHR ''O'') = CHR ''o''"
  "lower_char (CHR ''P'') = CHR ''p''"
  "lower_char (CHR ''Q'') = CHR ''q''"
  "lower_char (CHR ''R'') = CHR ''r''"
  "lower_char (CHR ''S'') = CHR ''s''"
  "lower_char (CHR ''T'') = CHR ''t''"
  "lower_char (CHR ''U'') = CHR ''u''"
  "lower_char (CHR ''V'') = CHR ''v''"
  "lower_char (CHR ''W'') = CHR ''w''"
  "lower_char (CHR ''X'') = CHR ''x''"
  "lower_char (CHR ''Y'') = CHR ''y''"
  "lower_char (CHR ''Z'') = CHR ''z''"
  "lower_char (CHR ''0'') = CHR ''0''"
  "lower_char (CHR ''1'') = CHR ''1''"
  "lower_char (CHR ''2'') = CHR ''2''"
  "lower_char (CHR ''3'') = CHR ''3''"
  "lower_char (CHR ''4'') = CHR ''4''"
  "lower_char (CHR ''5'') = CHR ''5''"
  "lower_char (CHR ''6'') = CHR ''6''"
  "lower_char (CHR ''7'') = CHR ''7''"
  "lower_char (CHR ''8'') = CHR ''8''"
  "lower_char (CHR ''9'') = CHR ''9''"
  "lower_char (CHR '' '') = CHR '' ''"
  "lower_char (CHR ''.'') = CHR ''.''"
  "lower_char (CHR '','') = CHR '',''"
  "lower_char (CHR '':'') = CHR '':''"
  "lower_char (CHR ''-'') = CHR ''-''"
  "lower_char (CHR 0x0A) = CHR 0x0A"
  by (simp_all add: lower_char_def)

lemmas string_eval = toLowerCase_def lower_char_simps pattern_defs text_defs applyPatterns_def
  IMPROVEMENT_PATTERNS_def apply_pattern_def

theorem applyPatterns_second_pass_witness:
  "''add_chain_of_thought'' \<in> set (snd (applyPatterns ''Do stuff''))
   \<and> applyPatterns (fst (applyPatterns ''Do stuff'')) = (fst (applyPatterns ''Do stuff''), [])
   \<and> \<not> check add_structure ''Think step by step. Requirements: format, context.''
   \<and> \<not> check add_chain_of_thought ''Think step by step. Requirements: format, context.''
   \<and> \<not> check add_constraints ''Think step by step. Requirements: format, context.''
   \<and> \<not> check add_output_format ''Think step by step. Requirements: format, context.''
   \<and> \<not> check add_context_request ''Think step by step. Requirements: format, context.''
   \<and> applyPatterns ''Think step by step. Requirements: format, context.''
       = (''Think step by step. Requirements: format, context.'', [])"
proof -
  let ?p = "''Think step by step. Requirements: format, context.''"
  have a: "''add_chain_of_thought'' \<in> set (snd (applyPatterns ''Do stuff''))"
    by (simp add: string_eval)
  have b: "\<not> check add_structure ?p" "\<not> check add_chain_of_thought ?p"
    "\<not> check add_constraints ?p" "\<not> check add_output_format ?p"
    "\<not> check add_context_request ?p"
    by (simp_all add: pattern_defs toLowerCase_def lower_char_simps)
  then have b': "\<forall>pat \<in> set IMPROVEMENT_PATTERNS. \<not> check pat ?p"
    by (simp add: IMPROVEMENT_PATTERNS_def)
  from applyPatterns_second_pass [of "''Do stuff''"] a
  have c: "applyPatterns (fst (applyPatterns ''Do stuff'')) = (fst (applyPatterns ''Do stuff''), [])"
    by blast
  from applyPatterns_second_pass [of ?p] b'
  have d: "applyPatterns ?p = (?p, [])"
    by blast
  from a b c d show ?thesis by blast
qed

text \<open>
  Claim C8 as stated fails on the prompt \<open>think through\<close>: the first application adds
  the structure, constraints and context texts (not the chain-of-thought text, whose
  predicate the prompt already switches off), and on that output \<open>add_structure\<close> fires
  again.
\<close>

theorem applyPatterns_twice_counterexample:
  "applyPatterns ''think through''
     = (''think through'' @ structure_text @ constraints_text @ context_request_text,
        [''add_structure'', ''add_constraints'', ''add_context_request''])
   \<and> applyPatterns (''think through'' @ structure_text @ constraints_text @ context_request_text)
     = (''think through'' @ structure_text @ constraints_text @ context_request_text
          @ structure_text,
        [''add_structure''])"
  by (simp add: string_eval)

section \<open>The optimization controller\<close>

lemma call_Inr:
  "call rt req st = Inr (content, st') \<Longrightarrow> st' = st\<lparr>sent := sent st @ [req]\<rparr>"
  by (auto simp: call_def split: response.splits)

lemma scorePrompt_Inr:
  assumes "scorePrompt rt prompt domain st = Inr (s, st')"
  shows "config st' = config st \<and> history st' = history st
       \<and> sent st' = sent st @ [JudgeRequest domain prompt]"
proof -
  from assms obtain content st1
    where c: "call rt (JudgeRequest domain prompt) st = Inr (content, st1)"
    by (auto simp: scorePrompt_def split: sum.splits)
  from call_Inr [OF c] have st1: "st1 = st\<lparr>sent := sent st @ [JudgeRequest domain prompt]\<rparr>" .
  from assms c have "st' = st1 \<or> (\<exists>ev. st' = st1\<lparr>lastEvaluation := Some ev\<rparr>)"
    by (auto simp: scorePrompt_def split: sum.splits option.splits)
  with st1 show ?thesis by auto
qed

lemma generateCandidate_Inr:
  assumes "generateCandidate rt cur domain st = Inr (cand, st')"
  shows "st' = st\<lparr>sent := sent st @ [GenerateRequest domain (historyText (history st)) cur]\<rparr>"
proof -
  from assms obtain content
    where "call rt (GenerateRequest domain (historyText (history st)) cur) st = Inr (content, st')"
    by (auto simp: generateCandidate_def split: sum.splits)
  then show ?thesis by (rule call_Inr)
qed

lemma iteration_Inr:
  assumes it: "iteration rt domain r = Inr (r', stop)"
  shows "\<exists>cand st1 cs st2.
           generateCandidate rt (currentPrompt r) domain (self r) = Inr (cand, st1)
         \<and> scorePrompt rt cand domain st1 = Inr (Finite cs, st2)
         \<and> currentPrompt r' = (if currentScore r < cs then cand else currentPrompt r)
         \<and> currentScore r' = (if currentScore r < cs then cs else currentScore r)
         \<and> iterations r' = Suc (iterations r)
         \<and> all_scores r' = all_scores r @ [cs]
         \<and> originalScore r' = originalScore r
         \<and> self r' = st2\<lparr>history := history st2 @ [(cand, cs)]\<rparr>"
proof -
  from it obtain cand st1
    where gen: "generateCandidate rt (currentPrompt r) domain (self r) = Inr (cand, st1)"
    by (auto simp: iteration_def split: sum.splits)
  from it gen obtain cs st2
    where sc: "scorePrompt rt cand domain st1 = Inr (Finite cs, st2)"
    by (auto simp: iteration_def finite_score_def split: sum.splits number.splits)
  have "currentPrompt r' = (if currentScore r < cs then cand else currentPrompt r)
         \<and> currentScore r' = (if currentScore r < cs then cs else currentScore r)
         \<and> iterations r' = Suc (iterations r)
         \<and> all_scores r' = all_scores r @ [cs]
         \<and> originalScore r' = originalScore r
         \<and> self r' = st2\<lparr>history := history st2 @ [(cand, cs)]\<rparr>"
    using it gen sc
    by (auto simp: iteration_def finite_score_def Let_def split: sum.splits if_splits)
  with gen sc show ?thesis by blast
qed


lemma optimize_loop_invariant:
  assumes "optimize_loop rt domain r = Inr rf"
    and "P r"
    and "\<And>r r' stop. P r \<Longrightarrow> iteration rt domain r = Inr (r', stop) \<Longrightarrow> P r'"
  shows "P rf"
  using assms
proof (induction rt domain r rule: optimize_loop.induct)
  case (1 rt domain r)
  show ?case
  proof (cases "iterations r < maxIterations (config (self r))")
    case False
    with "1.prems"(1) have "rf = r" by (simp add: optimize_loop.simps)
    with "1.prems"(2) show ?thesis by simp
  next
    case True
    with "1.prems"(1) obtain r' stop where it: "iteration rt domain r = Inr (r', stop)"
      by (auto simp: optimize_loop.simps [of rt domain r] split: sum.splits)
    from "1.prems"(3) [OF "1.prems"(2) it] have P': "P r'" .
    show ?thesis
    proof (cases stop)
      case True
      with "1.prems"(1) \<open>iterations r < maxIterations (config (self r))\<close> it have "rf = r'"
        by (simp add: optimize_loop.simps [of rt domain r])
      with P' show ?thesis by simp
    next
      case False
      with "1.prems"(1) \<open>iterations r < maxIterations (config (self r))\<close> it
      have "optimize_loop rt domain r' = Inr rf"
        by (simp add: optimize_loop.simps [of rt domain r])
      from "1.IH" [OF \<open>iterations r < maxIterations (config (self r))\<close> it refl False this P'
                      "1.prems"(3)]
      show ?thesis by simp
    qed
  qed
qed


lemma iteration_currentScore_mono:
  "iteration rt domain r = Inr (r', stop) \<Longrightarrow> currentScore r \<le> currentScore r'"
  using iteration_Inr [of rt domain r r' stop] by auto

lemma optimize_loop_currentScore_mono:
  assumes "optimize_loop rt domain r = Inr rf"
  shows "currentScore r \<le> currentScore rf"
proof (rule optimize_loop_invariant [OF assms, where P = "\<lambda>x. currentScore r \<le> currentScore x"])
  show "currentScore r \<le> currentScore r" by simp
next
  fix x x' stop
  assume "currentScore r \<le> currentScore x" and "iteration rt domain x = Inr (x', stop)"
  with iteration_currentScore_mono [of rt domain x x' stop]
  show "currentScore r \<le> currentScore x'" by simp
qed

text \<open>
  Claim C1. In every pass through the loop of \<open>optimize\<close> that completes, the candidate
  and its score become the current prompt and score when the candidate's score is
  strictly above the current score, and both stay as they are when it ties or is
  below; so the current score never decreases in a pass, in the loop, or over a whole
  run from the score the loop starts with.
\<close>

theorem strict_improvement_adoption:
  "(generateCandidate rt (currentPrompt r) domain (self r) = Inr (candidate, st1)
      \<and> scorePrompt rt candidate domain st1 = Inr (Finite candidateScore, st2)
      \<and> iteration rt domain r = Inr (r', stop)
     \<longrightarrow> (currentScore r < candidateScore
            \<longrightarrow> currentPrompt r' = candidate \<and> currentScore r' = candidateScore)
         \<and> (candidateScore \<le> currentScore r
            \<longrightarrow> currentPrompt r' = currentPrompt r \<and> currentScore r' = currentScore r)
         \<and> currentScore r \<le> currentScore r')
   \<and> (optimize_loop rt domain r = Inr rf \<longrightarrow> currentScore r \<le> currentScore rf)
   \<and> (optimize_run rt originalPrompt similarPrompts domain st = Inr rf
        \<longrightarrow> (\<exists>r0. optimize_init rt originalPrompt similarPrompts domain st = Inr r0
               \<and> optimize_loop rt domain r0 = Inr rf
               \<and> currentScore r0 \<le> currentScore rf))"
proof (intro conjI impI)
  assume h: "generateCandidate rt (currentPrompt r) domain (self r) = Inr (candidate, st1)
      \<and> scorePrompt rt candidate domain st1 = Inr (Finite candidateScore, st2)
      \<and> iteration rt domain r = Inr (r', stop)"
  then have it: "iteration rt domain r = Inr (r', stop)" by simp
  from iteration_Inr [OF it] h
  have eq: "currentPrompt r' = (if currentScore r < candidateScore then candidate else currentPrompt r)"
           "currentScore r' = (if currentScore r < candidateScore then candidateScore else currentScore r)"
    by auto
  show "currentScore r \<le> currentScore r'" using eq by simp
  { assume "currentScore r < candidateScore"
    with eq show "currentPrompt r' = candidate" "currentScore r' = candidateScore" by simp_all }
  { assume "candidateScore \<le> currentScore r"
    with eq show "currentPrompt r' = currentPrompt r" "currentScore r' = currentScore r"
      by simp_all }
next
  assume "optimize_loop rt domain r = Inr rf"
  then show "currentScore r \<le> currentScore rf" by (rule optimize_loop_currentScore_mono)
next
  assume run: "optimize_run rt originalPrompt similarPrompts domain st = Inr rf"
  then obtain r0 where init: "optimize_init rt originalPrompt similarPrompts domain st = Inr r0"
    and loop: "optimize_loop rt domain r0 = Inr rf"
    by (auto simp: optimize_run_def split: sum.splits)
  from optimize_loop_currentScore_mono [OF loop] init loop
  show "\<exists>r0. optimize_init rt originalPrompt similarPrompts domain st = Inr r0
               \<and> optimize_loop rt domain r0 = Inr rf
               \<and> currentScore r0 \<le> currentScore rf" by blast
qed

lemma optimize_init_Inr:
  assumes "optimize_init rt originalPrompt similarPrompts domain st = Inr r"
  shows "\<exists>score0 st1. scorePrompt rt originalPrompt domain st = Inr (Finite score0, st1)
           \<and> originalScore r = score0
           \<and> history (self r) = [(originalPrompt, score0)]
           \<and> iterations r = 0"
proof -
  from assms obtain score0 st1
    where sc: "scorePrompt rt originalPrompt domain st = Inr (Finite score0, st1)"
    by (auto simp: optimize_init_def finite_score_def split: sum.splits number.splits)
  have fs: "finite_score (Inr (Finite score0, st1)) = Inr (score0, st1)"
    by (simp add: finite_score_def)
  from assms have "originalScore r = score0 \<and> history (self r) = [(originalPrompt, score0)]
           \<and> iterations r = 0"
    unfolding optimize_init_def sc fs
    by (auto simp: Let_def split: sum.splits prod.splits if_splits)
  with sc show ?thesis by blast
qed

lemma optimize_loop_originalScore:
  assumes "optimize_loop rt domain r = Inr rf"
  shows "originalScore rf = originalScore r"
proof (rule optimize_loop_invariant [OF assms, where P = "\<lambda>x. originalScore x = originalScore r"])
  show "originalScore r = originalScore r" by simp
next
  fix x x' stop
  assume "originalScore x = originalScore r" and "iteration rt domain x = Inr (x', stop)"
  with iteration_Inr [of rt domain x x' stop]
  show "originalScore x' = originalScore r" by auto
qed

text \<open>
  Claim C6. In a completed run of \<open>optimize\<close>, \<open>estimated_improvement\<close> is the final
  current score minus the score of the original prompt, the first score the run takes,
  before any pattern or retrieval rewriting; \<open>optimized_prompt\<close> is the final current
  prompt and \<open>similar_prompts_used\<close> the number of similar records passed in.
\<close>

theorem estimated_improvement_baseline:
  assumes "optimize rt originalPrompt similarPrompts domain st = Inr (result, st')"
  shows "\<exists>score0 st1 rf.
           scorePrompt rt originalPrompt domain st = Inr (Finite score0, st1)
         \<and> optimize_run rt originalPrompt similarPrompts domain st = Inr rf
         \<and> optimized_prompt result = currentPrompt rf
         \<and> estimated_improvement result = currentScore rf - score0
         \<and> similar_prompts_used result = length similarPrompts"
proof -
  from assms obtain rf
    where run: "optimize_run rt originalPrompt similarPrompts domain st = Inr rf"
      and res: "result = \<lparr>original_prompt = originalPrompt,
                     optimized_prompt = currentPrompt rf,
                     improvements_made = improvements rf,
                     iterations_made = iterations rf,
                     estimated_improvement = currentScore rf - originalScore rf,
                     similar_prompts_used = length similarPrompts\<rparr>"
    by (auto simp: optimize_def Let_def split: sum.splits)
  from run obtain r0 where init: "optimize_init rt originalPrompt similarPrompts domain st = Inr r0"
    and loop: "optimize_loop rt domain r0 = Inr rf"
    by (auto simp: optimize_run_def split: sum.splits)
  from optimize_init_Inr [OF init] obtain score0 st1
    where sc: "scorePrompt rt originalPrompt domain st = Inr (Finite score0, st1)"
      and o: "originalScore r0 = score0" by blast
  from optimize_loop_originalScore [OF loop] o have "originalScore rf = score0" by simp
  with res sc run show ?thesis by simp
qed

text \<open>The sample run of six iterations, evaluated.\<close>

lemmas run_eval = optimize_run_def optimize_init_def optimize_loop.simps iteration_def
  finite_score_def generateCandidate_def scorePrompt_def call_def or_default_def
  trim_or_default_def trim_def is_space_def historyText_def slice_last_def checkConvergence_def
  getLastEvaluation_def reason_lines_def quickHeuristicFallback_def is_digit_def judged_def
  EVALUATION_CRITERIA_def or_zero_def ToNumber_def learnFromSimilar_def DEFAULT_CONFIG_def
  sample_defs string_eval Let_def

lemma optimize_run_rt6:
  "optimize_run rt6 ''Do stuff'' [] ''general'' (new_optimizer None) = Inr run6"
  by (simp add: rt6_def run6_def improved_do_stuff_def run_eval)

lemma historyText_drop:
  "historyText h = map (\<lambda>(prompt, score). (score, take 100 prompt)) (drop (length h - 5) h)"
  by (simp add: historyText_def slice_last_def)

lemma historyText_short:
  assumes "h \<noteq> []" and "length h \<le> 5"
  shows "hd (historyText h) = (snd (hd h), take 100 (fst (hd h)))"
proof -
  from assms obtain x xs where h: "h = x # xs" by (cases h) auto
  from assms(2) have "length h - 5 = 0" by simp
  then show ?thesis by (simp add: historyText_drop h split: prod.splits)
qed

lemma historyText_long:
  assumes "5 < length h"
  shows "historyText h = historyText (tl h)"
proof -
  from assms obtain x xs where h: "h = x # xs" by (cases h) auto
  with assms have "length h - 5 = Suc (length xs - 5)" by simp
  then show ?thesis by (simp add: historyText_drop h)
qed

lemma iteration_requests:
  assumes it: "iteration rt domain r = Inr (r', stop)"
  shows "\<exists>candidate candidateScore st1 st2.
           generateCandidate rt (currentPrompt r) domain (self r) = Inr (candidate, st1)
         \<and> scorePrompt rt candidate domain st1 = Inr (Finite candidateScore, st2)
         \<and> sent (self r') = sent (self r)
             @ [GenerateRequest domain (historyText (history (self r))) (currentPrompt r),
                JudgeRequest domain candidate]
         \<and> history (self r') = history (self r) @ [(candidate, candidateScore)]
         \<and> iterations r' = Suc (iterations r)"
proof -
  from iteration_Inr [OF it] obtain cand st1 cs st2
    where gen: "generateCandidate rt (currentPrompt r) domain (self r) = Inr (cand, st1)"
      and sc: "scorePrompt rt cand domain st1 = Inr (Finite cs, st2)"
      and n: "iterations r' = Suc (iterations r)"
      and s: "self r' = st2\<lparr>history := history st2 @ [(cand, cs)]\<rparr>"
    by blast
  from generateCandidate_Inr [OF gen] scorePrompt_Inr [OF sc] s n
  have "sent (self r') = sent (self r)
             @ [GenerateRequest domain (historyText (history (self r))) (currentPrompt r),
                JudgeRequest domain cand]
         \<and> history (self r') = history (self r) @ [(cand, cs)]
         \<and> iterations r' = Suc (iterations r)"
    by simp
  with gen sc show ?thesis by blast
qed

lemma optimize_loop_history:
  assumes loop: "optimize_loop rt domain r = Inr rf"
    and start: "history (self r) = [b]" "iterations r = 0"
  shows "\<exists>candidates. history (self rf) = b # candidates \<and> length candidates = iterations rf"
proof (rule optimize_loop_invariant [OF loop,
         where P = "\<lambda>x. \<exists>cs. history (self x) = b # cs \<and> length cs = iterations x"])
  from start show "\<exists>cs. history (self r) = b # cs \<and> length cs = iterations r" by simp
next
  fix x x' stop
  assume "\<exists>cs. history (self x) = b # cs \<and> length cs = iterations x"
    and "iteration rt domain x = Inr (x', stop)"
  with iteration_requests [of rt domain x x' stop]
  show "\<exists>cs. history (self x') = b # cs \<and> length cs = iterations x'" by auto
qed

text \<open>
  Claim C7, amended. \<open>optimize\<close> seeds the history with exactly one pair, the original
  prompt with its baseline score, and every pass through the loop appends the candidate
  with its score, so the history of a run always begins with the baseline. The
  generator's request holds the last five entries of that history (score and first
  hundred characters of the prompt): they begin with the baseline entry while the
  history has at most five entries, that is in the first five passes, and from the
  sixth pass on they are the last five entries of the history without its first one.
\<close>

theorem generator_history_window:
  "(optimize_init rt originalPrompt similarPrompts domain st = Inr r0
      \<longrightarrow> (\<exists>score0 st1. scorePrompt rt originalPrompt domain st = Inr (Finite score0, st1)
             \<and> history (self r0) = [(originalPrompt, score0)]))
   \<and> (iteration rt domain r = Inr (r', stop)
      \<longrightarrow> (\<exists>candidate candidateScore st1 st2.
             generateCandidate rt (currentPrompt r) domain (self r) = Inr (candidate, st1)
           \<and> scorePrompt rt candidate domain st1 = Inr (Finite candidateScore, st2)
           \<and> sent (self r') = sent (self r)
               @ [GenerateRequest domain (historyText (history (self r))) (currentPrompt r),
                  JudgeRequest domain candidate]
           \<and> history (self r') = history (self r) @ [(candidate, candidateScore)]))
   \<and> historyText h
       = map (\<lambda>(prompt, score). (score, take 100 prompt)) (drop (length h - 5) h)
   \<and> (h \<noteq> [] \<and> length h \<le> 5 \<longrightarrow> hd (historyText h) = (snd (hd h), take 100 (fst (hd h))))
   \<and> (5 < length h \<longrightarrow> historyText h = historyText (tl h))
   \<and> (optimize_run rt originalPrompt similarPrompts domain st = Inr rf
      \<longrightarrow> (\<exists>score0 st1 candidates.
             scorePrompt rt originalPrompt domain st = Inr (Finite score0, st1)
           \<and> history (self rf) = (originalPrompt, score0) # candidates
           \<and> length candidates = iterations rf))"
proof (intro conjI impI)
  assume "optimize_init rt originalPrompt similarPrompts domain st = Inr r0"
  from optimize_init_Inr [OF this]
  show "\<exists>score0 st1. scorePrompt rt originalPrompt domain st = Inr (Finite score0, st1)
             \<and> history (self r0) = [(originalPrompt, score0)]" by blast
next
  assume "iteration rt domain r = Inr (r', stop)"
  from iteration_requests [OF this]
  show "\<exists>candidate candidateScore st1 st2.
             generateCandidate rt (currentPrompt r) domain (self r) = Inr (candidate, st1)
           \<and> scorePrompt rt candidate domain st1 = Inr (Finite candidateScore, st2)
           \<and> sent (self r') = sent (self r)
               @ [GenerateRequest domain (historyText (history (self r))) (currentPrompt r),
                  JudgeRequest domain candidate]
           \<and> history (self r') = history (self r) @ [(candidate, candidateScore)]" by blast
next
  show "historyText h
       = map (\<lambda>(prompt, score). (score, take 100 prompt)) (drop (length h - 5) h)"
    by (rule historyText_drop)
next
  assume "h \<noteq> [] \<and> length h \<le> 5"
  then show "hd (historyText h) = (snd (hd h), take 100 (fst (hd h)))"
    by (simp add: historyText_short)
next
  assume "5 < length h"
  then show "historyText h = historyText (tl h)" by (rule historyText_long)
next
  assume run: "optimize_run rt originalPrompt similarPrompts domain st = Inr rf"
  then obtain r0 where init: "optimize_init rt originalPrompt similarPrompts domain st = Inr r0"
    and loop: "optimize_loop rt domain r0 = Inr rf"
    by (auto simp: optimize_run_def split: sum.splits)
  from optimize_init_Inr [OF init] obtain score0 st1
    where sc: "scorePrompt rt originalPrompt domain st = Inr (Finite score0, st1)"
      and h: "history (self r0) = [(originalPrompt, score0)]" and n: "iterations r0 = 0"
    by blast
  from optimize_loop_history [OF loop h n] sc
  show "\<exists>score0 st1 candidates.
             scorePrompt rt originalPrompt domain st = Inr (Finite score0, st1)
           \<and> history (self rf) = (originalPrompt, score0) # candidates
           \<and> length candidates = iterations rf" by blast
qed

text \<open>
  Claim C7 as stated fails in the sixth pass of the sample run: the first request of
  the generator holds the baseline pair alone, the sixth holds the five candidates
  before it and no longer the baseline \<open>(0.5, Do stuff)\<close>.
\<close>

theorem baseline_dropped_counterexample:
  "nth_request 2 (optimize_run rt6 ''Do stuff'' [] ''general'' (new_optimizer None))
     = Some (GenerateRequest ''general'' [(1 / 2, ''Do stuff'')] improved_do_stuff)
   \<and> nth_request 12 (optimize_run rt6 ''Do stuff'' [] ''general'' (new_optimizer None))
     = Some (GenerateRequest ''general''
               [(1 / 2, ''a''), (1 / 2, ''a''), (11 / 20, ''a'' @ NL @ ''b''), (1 / 2, ''a''),
                (1 / 2, ''a'')]
               improved_do_stuff)"
  by (simp add: optimize_run_rt6 nth_request_def run6_def)

section \<open>Worked runs\<close>

text \<open>The claims about the controller at concrete inputs: a pass that adopts its
  candidate, a pass with a tie, and the sample run of six iterations.\<close>

theorem strict_improvement_adoption_witness:
  "(\<exists>st1 st2 r' stop.
      generateCandidate
        (sample_runtime [Completion (Some ''  better prompt ''), Completion (Some test_judgement)])
        (currentPrompt (sample_run (1 / 2))) ''general'' (self (sample_run (1 / 2)))
        = Inr (''better prompt'', st1)
    \<and> scorePrompt
        (sample_runtime [Completion (Some ''  better prompt ''), Completion (Some test_judgement)])
        ''better prompt'' ''general'' st1 = Inr (Finite (72 / 100), st2)
    \<and> iteration
        (sample_runtime [Completion (Some ''  better prompt ''), Completion (Some test_judgement)])
        ''general'' (sample_run (1 / 2)) = Inr (r', stop)
    \<and> currentPrompt r' = ''better prompt'' \<and> currentScore r' = 72 / 100)
   \<and> (\<exists>st1 st2 r' stop.
      generateCandidate
        (sample_runtime [Completion (Some ''  better prompt ''), Completion (Some test_judgement)])
        (currentPrompt (sample_run (72 / 100))) ''general'' (self (sample_run (72 / 100)))
        = Inr (''better prompt'', st1)
    \<and> scorePrompt
        (sample_runtime [Completion (Some ''  better prompt ''), Completion (Some test_judgement)])
        ''better prompt'' ''general'' st1 = Inr (Finite (72 / 100), st2)
    \<and> iteration
        (sample_runtime [Completion (Some ''  better prompt ''), Completion (Some test_judgement)])
        ''general'' (sample_run (72 / 100)) = Inr (r', stop)
    \<and> currentPrompt r' = ''p'' \<and> currentScore r' = 72 / 100)
   \<and> optimize_run rt6 ''Do stuff'' [] ''general'' (new_optimizer None) = Inr run6
   \<and> (\<exists>r0. optimize_init rt6 ''Do stuff'' [] ''general'' (new_optimizer None) = Inr r0
          \<and> optimize_loop rt6 ''general'' r0 = Inr run6
          \<and> currentScore r0 \<le> currentScore run6)"
proof -
  let ?rt = "sample_runtime [Completion (Some ''  better prompt ''), Completion (Some test_judgement)]"
  have pass: "\<exists>st1 st2 r' stop.
      generateCandidate ?rt (currentPrompt (sample_run s)) ''general'' (self (sample_run s))
        = Inr (''better prompt'', st1)
    \<and> scorePrompt ?rt ''better prompt'' ''general'' st1 = Inr (Finite (72 / 100), st2)
    \<and> iteration ?rt ''general'' (sample_run s) = Inr (r', stop)" for s
    by (simp add: sample_run_def run_eval) blast
  have a: "\<exists>st1 st2 r' stop.
      generateCandidate ?rt (currentPrompt (sample_run (1 / 2))) ''general''
        (self (sample_run (1 / 2))) = Inr (''better prompt'', st1)
    \<and> scorePrompt ?rt ''better prompt'' ''general'' st1 = Inr (Finite (72 / 100), st2)
    \<and> iteration ?rt ''general'' (sample_run (1 / 2)) = Inr (r', stop)
    \<and> currentPrompt r' = ''better prompt'' \<and> currentScore r' = 72 / 100"
  proof -
    from pass [of "1 / 2"] obtain st1 st2 r' stop
      where h: "generateCandidate ?rt (currentPrompt (sample_run (1 / 2))) ''general''
                  (self (sample_run (1 / 2))) = Inr (''better prompt'', st1)
              \<and> scorePrompt ?rt ''better prompt'' ''general'' st1 = Inr (Finite (72 / 100), st2)
              \<and> iteration ?rt ''general'' (sample_run (1 / 2)) = Inr (r', stop)"
      by blast
    have less: "currentScore (sample_run (1 / 2)) < 72 / 100" by (simp add: sample_run_def)
    from strict_improvement_adoption [THEN conjunct1, rule_format, OF h] less
    have "currentPrompt r' = ''better prompt'' \<and> currentScore r' = 72 / 100" by blast
    with h show ?thesis by blast
  qed
  have b: "\<exists>st1 st2 r' stop.
      generateCandidate ?rt (currentPrompt (sample_run (72 / 100))) ''general''
        (self (sample_run (72 / 100))) = Inr (''better prompt'', st1)
    \<and> scorePrompt ?rt ''better prompt'' ''general'' st1 = Inr (Finite (72 / 100), st2)
    \<and> iteration ?rt ''general'' (sample_run (72 / 100)) = Inr (r', stop)
    \<and> currentPrompt r' = ''p'' \<and> currentScore r' = 72 / 100"
  proof -
    from pass [of "72 / 100"] obtain st1 st2 r' stop
      where h: "generateCandidate ?rt (currentPrompt (sample_run (72 / 100))) ''general''
                  (self (sample_run (72 / 100))) = Inr (''better prompt'', st1)
              \<and> scorePrompt ?rt ''better prompt'' ''general'' st1 = Inr (Finite (72 / 100), st2)
              \<and> iteration ?rt ''general'' (sample_run (72 / 100)) = Inr (r', stop)"
      by blast
    have tie: "72 / 100 \<le> currentScore (sample_run (72 / 100))" by (simp add: sample_run_def)
    from strict_improvement_adoption [THEN conjunct1, rule_format, OF h] tie
    have "currentPrompt r' = currentPrompt (sample_run (72 / 100))
        \<and> currentScore r' = currentScore (sample_run (72 / 100))" by blast
    then have "currentPrompt r' = ''p'' \<and> currentScore r' = 72 / 100"
      by (simp add: sample_run_def)
    with h show ?thesis by blast
  qed
  note c = optimize_run_rt6
  from strict_improvement_adoption [THEN conjunct2, THEN conjunct2, rule_format, OF c]
  have d: "\<exists>r0. optimize_init rt6 ''Do stuff'' [] ''general'' (new_optimizer None) = Inr r0
          \<and> optimize_loop rt6 ''general'' r0 = Inr run6
          \<and> currentScore r0 \<le> currentScore run6" .
  from a b c d show ?thesis by blast
qed

theorem estimated_improvement_baseline_witness:
  "(\<exists>result st'. optimize rt6 ''Do stuff'' [] ''general'' (new_optimizer None) = Inr (result, st')
      \<and> optimized_prompt result = improved_do_stuff
      \<and> estimated_improvement result = 3 / 4 - 1 / 2
      \<and> similar_prompts_used result = 0)
   \<and> (\<exists>st1. scorePrompt rt6 ''Do stuff'' ''general'' (new_optimizer None) = Inr (Finite (1 / 2), st1))
   \<and> currentScore run6 = 3 / 4
   \<and> hd (all_scores run6) = 3 / 4"
proof -
  have o: "\<exists>result st'. optimize rt6 ''Do stuff'' [] ''general'' (new_optimizer None)
             = Inr (result, st')"
    by (simp add: optimize_def optimize_run_rt6)
  then obtain result st'
    where r: "optimize rt6 ''Do stuff'' [] ''general'' (new_optimizer None) = Inr (result, st')"
    by blast
  from estimated_improvement_baseline [OF r] obtain score0 st1 rf
    where sc: "scorePrompt rt6 ''Do stuff'' ''general'' (new_optimizer None) = Inr (Finite score0, st1)"
      and run: "optimize_run rt6 ''Do stuff'' [] ''general'' (new_optimizer None) = Inr rf"
      and p: "optimized_prompt result = currentPrompt rf"
      and e: "estimated_improvement result = currentScore rf - score0"
      and n: "similar_prompts_used result = length ([] :: PromptRecord list)"
    by blast
  from run have rf: "rf = run6" by (simp add: optimize_run_rt6)
  have "\<exists>st1. scorePrompt rt6 ''Do stuff'' ''general'' (new_optimizer None) = Inr (Finite (1 / 2), st1)"
    by (simp add: rt6_def run_eval)
  with sc have s0: "score0 = 1 / 2" by auto
  have c: "currentScore run6 = 3 / 4" "currentPrompt run6 = improved_do_stuff"
    "hd (all_scores run6) = 3 / 4"
    by (simp_all add: run6_def)
  from r p e n rf s0 c sc show ?thesis by auto
qed

theorem generator_history_window_witness:
  "(\<exists>r0. optimize_init rt6 ''Do stuff'' [] ''general'' (new_optimizer None) = Inr r0
        \<and> history (self r0) = [(''Do stuff'', 1 / 2)])
   \<and> (\<exists>r' stop candidate.
        iteration
          (sample_runtime [Completion (Some ''  better prompt ''), Completion (Some test_judgement)])
          ''general'' (sample_run (1 / 2)) = Inr (r', stop)
        \<and> sent (self r') = [GenerateRequest ''general'' [(1 / 2, ''p'')] ''p'',
                             JudgeRequest ''general'' candidate])
   \<and> hd (historyText [(''Do stuff'', 1 / 2), (''a'', 1 / 2)]) = (1 / 2, ''Do stuff'')
   \<and> historyText (history (self run6)) = historyText (tl (history (self run6)))
   \<and> (\<exists>candidates. history (self run6) = (''Do stuff'', 1 / 2) # candidates
        \<and> length candidates = 6)"
proof -
  let ?rt = "sample_runtime [Completion (Some ''  better prompt ''), Completion (Some test_judgement)]"
  note w = generator_history_window
  have s0: "\<exists>st1. scorePrompt rt6 ''Do stuff'' ''general'' (new_optimizer None) = Inr (Finite (1 / 2), st1)"
    by (simp add: rt6_def run_eval)
  have a: "\<exists>r0. optimize_init rt6 ''Do stuff'' [] ''general'' (new_optimizer None) = Inr r0
        \<and> history (self r0) = [(''Do stuff'', 1 / 2)]"
  proof -
    from optimize_run_rt6 obtain r0
      where init: "optimize_init rt6 ''Do stuff'' [] ''general'' (new_optimizer None) = Inr r0"
      by (auto simp: optimize_run_def split: sum.splits)
    from w [THEN conjunct1, rule_format, OF init] obtain score0 st1
      where "scorePrompt rt6 ''Do stuff'' ''general'' (new_optimizer None) = Inr (Finite score0, st1)"
        and "history (self r0) = [(''Do stuff'', score0)]" by blast
    with s0 init show ?thesis by auto
  qed
  have b: "\<exists>r' stop candidate.
        iteration ?rt ''general'' (sample_run (1 / 2)) = Inr (r', stop)
        \<and> sent (self r') = [GenerateRequest ''general'' [(1 / 2, ''p'')] ''p'',
                             JudgeRequest ''general'' candidate]"
  proof -
    have "\<exists>r' stop. iteration ?rt ''general'' (sample_run (1 / 2)) = Inr (r', stop)"
      by (simp add: sample_run_def run_eval) blast
    then obtain r' stop
      where it: "iteration ?rt ''general'' (sample_run (1 / 2)) = Inr (r', stop)" by blast
    from w [THEN conjunct2, THEN conjunct1, rule_format, OF it] obtain candidate
      where "sent (self r') = sent (self (sample_run (1 / 2)))
               @ [GenerateRequest ''general'' (historyText (history (self (sample_run (1 / 2)))))
                    (currentPrompt (sample_run (1 / 2))),
                  JudgeRequest ''general'' candidate]" by blast
    then have "sent (self r') = [GenerateRequest ''general'' [(1 / 2, ''p'')] ''p'',
                             JudgeRequest ''general'' candidate]"
      by (simp add: sample_run_def new_optimizer_def historyText_def slice_last_def)
    with it show ?thesis by blast
  qed
  have c: "hd (historyText [(''Do stuff'', 1 / 2), (''a'', 1 / 2)]) = (1 / 2, ''Do stuff'')"
    using w [THEN conjunct2, THEN conjunct2, THEN conjunct2, THEN conjunct1,
             of "[(''Do stuff'', 1 / 2), (''a'', 1 / 2)]"]
    by simp
  have d: "historyText (history (self run6)) = historyText (tl (history (self run6)))"
    using w [THEN conjunct2, THEN conjunct2, THEN conjunct2, THEN conjunct2, THEN conjunct1,
             of "history (self run6)"]
    by (simp add: run6_def)
  have e: "\<exists>candidates. history (self run6) = (''Do stuff'', 1 / 2) # candidates
        \<and> length candidates = 6"
  proof -
    from w [THEN conjunct2, THEN conjunct2, THEN conjunct2, THEN conjunct2, THEN conjunct2,
            rule_format, OF optimize_run_rt6]
    obtain score0 st1 candidates
      where "scorePrompt rt6 ''Do stuff'' ''general'' (new_optimizer None) = Inr (Finite score0, st1)"
        and "history (self run6) = (''Do stuff'', score0) # candidates"
        and "length candidates = iterations run6" by blast
    moreover have "iterations run6 = 6" by (simp add: run6_def)
    ultimately show ?thesis using s0 by auto
  qed
  from a b c d e show ?thesis by blast
qed


section \<open>The retained evaluation after a heuristic score\<close>

text \<open>What the \<open>catch\<close> block leaves behind on every path into it: the heuristic
  score, and the optimizer as it was but for the logged request, so that
  \<open>getLastEvaluation\<close> returns what it returned before the call.\<close>

lemma scorePrompt_fallback_state:
  assumes resp: "create rt (length (sent st)) (JudgeRequest domain prompt) = Completion content"
    and fb: "JSON_parse rt (or_default content ''{}'') = None
             \<or> (\<exists>evaluation e. JSON_parse rt (or_default content ''{}'') = Some evaluation
                    \<and> judged evaluation = Inl e)"
  shows "scorePrompt rt prompt domain st =
           Inr (Finite (quickHeuristicFallback prompt),
                st\<lparr>sent := sent st @ [JudgeRequest domain prompt]\<rparr>)
       \<and> getLastEvaluation (st\<lparr>sent := sent st @ [JudgeRequest domain prompt]\<rparr>)
           = getLastEvaluation st"
  using fb by (auto simp: scorePrompt_def call_Completion [OF resp] getLastEvaluation_def)

text \<open>
  Claim C5 fails on the code. The \<open>catch\<close> block of \<open>scorePrompt\<close> returns the heuristic
  score and does not touch \<open>lastEvaluation\<close>, which the \<open>try\<close> block sets on every judged
  call. After a judged evaluation of \<open>Test prompt\<close>, a call for \<open>Another prompt\<close> that
  takes the heuristic path returns 0.5 and leaves \<open>getLastEvaluation\<close> at the
  judgement of \<open>Test prompt\<close>, with its scores, its reasoning and its weighted score
  0.72. \<open>optimize\<close> reads \<open>getLastEvaluation\<close> as the evaluation of the candidate it has
  just adopted: in the run below the one judged evaluation is the baseline's, the
  candidate adopted in the first pass is scored 0.8 by the heuristic, and the reason
  logged for it is the judge's reasoning about the original prompt.
\<close>

theorem fallback_leaves_stale_evaluation:
  "scorePrompt (sample_runtime [Completion (Some test_judgement), Completion (Some ''not json'')])
       ''Test prompt'' ''general'' (new_optimizer None)
     = Inr (Finite (72 / 100), after_test_judgement)
   \<and> scorePrompt (sample_runtime [Completion (Some test_judgement), Completion (Some ''not json'')])
         ''Another prompt'' ''general'' after_test_judgement
       = Inr (Finite (1 / 2),
              after_test_judgement\<lparr>sent := [JudgeRequest ''general'' ''Test prompt'',
                                               JudgeRequest ''general'' ''Another prompt'']\<rparr>)
   \<and> getLastEvaluation
         (after_test_judgement\<lparr>sent := [JudgeRequest ''general'' ''Test prompt'',
                                          JudgeRequest ''general'' ''Another prompt'']\<rparr>)
       = Some \<lparr>scores = test_judgement_value,
                reasoning = Some (JStr ''Good prompt with clear structure''),
                weightedScore = Finite (72 / 100)\<rparr>
   \<and> improvements_logged
         (optimize rt_judged_once stepwise_prompt [] ''general'' (new_optimizer None))
       = Some [OriginalScore (72 / 100),
               IterationImproved 1 (8 / 10 - 6 / 10) (8 / 10),
               Reason (JStr ''Good prompt with clear structure''),
               NoImprovement 2 (8 / 10) (8 / 10),
               NoImprovement 3 (8 / 10) (8 / 10),
               Converged]"
proof (intro conjI)
  show "scorePrompt (sample_runtime [Completion (Some test_judgement), Completion (Some ''not json'')])
       ''Test prompt'' ''general'' (new_optimizer None)
     = Inr (Finite (72 / 100), after_test_judgement)"
    by (simp add: sample_defs scorePrompt_def call_def or_default_def judged_def
          EVALUATION_CRITERIA_def or_zero_def ToNumber_def DEFAULT_CONFIG_def)
  show "scorePrompt (sample_runtime [Completion (Some test_judgement), Completion (Some ''not json'')])
         ''Another prompt'' ''general'' after_test_judgement
       = Inr (Finite (1 / 2),
              after_test_judgement\<lparr>sent := [JudgeRequest ''general'' ''Test prompt'',
                                               JudgeRequest ''general'' ''Another prompt'']\<rparr>)"
    by (simp add: sample_defs scorePrompt_def call_def or_default_def
          quickHeuristicFallback_def toLowerCase_def lower_char_simps is_digit_def)
  show "getLastEvaluation
         (after_test_judgement\<lparr>sent := [JudgeRequest ''general'' ''Test prompt'',
                                          JudgeRequest ''general'' ''Another prompt'']\<rparr>)
       = Some \<lparr>scores = test_judgement_value,
                reasoning = Some (JStr ''Good prompt with clear structure''),
                weightedScore = Finite (72 / 100)\<rparr>"
    by (simp add: getLastEvaluation_def after_test_judgement_def)
  show "improvements_logged
         (optimize rt_judged_once stepwise_prompt [] ''general'' (new_optimizer None))
       = Some [OriginalScore (72 / 100),
               IterationImproved 1 (8 / 10 - 6 / 10) (8 / 10),
               Reason (JStr ''Good prompt with clear structure''),
               NoImprovement 2 (8 / 10) (8 / 10),
               NoImprovement 3 (8 / 10) (8 / 10),
               Converged]"
    by (simp add: improvements_logged_def optimize_def rt_judged_once_def stepwise_prompt_def
          numbered_candidate_def new_optimizer_def run_eval)
qed

end
